theory Spec2Isabelle
  imports Complex_Main
begin

section \<open>Numbers and arrays\<close>

text \<open>
  The notebook works on two-dimensional numpy arrays of floats. An entry is a finite number,
  one of the two infinities, or the not-a-number marker \<open>np.nan\<close>. A finite number is
  taken as a real; the result of an operation on finite numbers is the exact result, or an
  infinity when its magnitude reaches the threshold at which a double overflows. Rounding
  below that threshold and the sign of zero are outside this model. The infinities and
  not-a-number follow the rules of floats: not-a-number is absorbing, and
  \<open>inf - inf\<close> and \<open>0 * inf\<close> are not-a-number.
\<close>

datatype fl = Num real | PInf | NInf | NaN

text \<open>
  An exact result of this magnitude or more rounds to an infinity: half a unit in the last
  place above the largest double.
\<close>

definition overflow_threshold :: real where
  "overflow_threshold = 2 ^ 1024 - 2 ^ 970"

definition ovf :: "real \<Rightarrow> fl" where
  "ovf r = (if overflow_threshold \<le> r then PInf
            else if r \<le> - overflow_threshold then NInf
            else Num r)"

text \<open>An infinity times a finite number: the sign of the product, not-a-number for 0.\<close>

definition signed_inf :: "real \<Rightarrow> fl" where
  "signed_inf r = (if 0 < r then PInf else if r < 0 then NInf else NaN)"

fun isnan :: "fl \<Rightarrow> bool" where
  "isnan NaN = True"
| "isnan v = False"

fun is_inf :: "fl \<Rightarrow> bool" where
  "is_inf PInf = True"
| "is_inf NInf = True"
| "is_inf v = False"

text \<open>A finite double: a number below the overflow threshold in magnitude.\<close>

fun finite_fl :: "fl \<Rightarrow> bool" where
  "finite_fl (Num r) = (\<bar>r\<bar> < overflow_threshold)"
| "finite_fl v = False"

text \<open>Neither negative nor not-a-number: a number that is at least 0, or plus infinity.\<close>

fun nonneg :: "fl \<Rightarrow> bool" where
  "nonneg (Num r) = (0 \<le> r)"
| "nonneg PInf = True"
| "nonneg v = False"

fun fneg :: "fl \<Rightarrow> fl" where
  "fneg (Num a) = Num (- a)"
| "fneg PInf = NInf"
| "fneg NInf = PInf"
| "fneg NaN = NaN"

fun fadd :: "fl \<Rightarrow> fl \<Rightarrow> fl" where
  "fadd (Num a) (Num b) = ovf (a + b)"
| "fadd NaN v = NaN"
| "fadd v NaN = NaN"
| "fadd PInf NInf = NaN"
| "fadd NInf PInf = NaN"
| "fadd PInf v = PInf"
| "fadd v PInf = PInf"
| "fadd NInf v = NInf"
| "fadd v NInf = NInf"

text \<open>Subtracting is adding the negation, which for floats gives the same result.\<close>

definition fsub :: "fl \<Rightarrow> fl \<Rightarrow> fl" where
  "fsub a b = fadd a (fneg b)"

fun fmul :: "fl \<Rightarrow> fl \<Rightarrow> fl" where
  "fmul (Num a) (Num b) = ovf (a * b)"
| "fmul NaN v = NaN"
| "fmul v NaN = NaN"
| "fmul PInf (Num b) = signed_inf b"
| "fmul (Num a) PInf = signed_inf a"
| "fmul NInf (Num b) = signed_inf (- b)"
| "fmul (Num a) NInf = signed_inf (- a)"
| "fmul PInf PInf = PInf"
| "fmul NInf NInf = PInf"
| "fmul PInf NInf = NInf"
| "fmul NInf PInf = NInf"

text \<open>
  The sum of a sequence of entries, accumulated from the last entry to the first; the sum
  of no entries is \<open>0.0\<close>.
\<close>

primrec fsum :: "fl list \<Rightarrow> fl" where
  "fsum [] = Num 0"
| "fsum (v # vs) = fadd v (fsum vs)"

text \<open>
  A two-dimensional array: its rows, and the number of columns (which the rows alone do not
  tell when there are none). The shape is \<open>(nrows m, ncols m)\<close>.
\<close>

record ndarray =
  ncols :: nat
  rows :: "fl list list"

definition nrows :: "ndarray \<Rightarrow> nat" where
  "nrows m = length (rows m)"

definition rect :: "ndarray \<Rightarrow> bool" where
  "rect m = list_all (\<lambda>r. length r = ncols m) (rows m)"

definition el :: "ndarray \<Rightarrow> nat \<Rightarrow> nat \<Rightarrow> fl" where
  "el m i j = rows m ! i ! j"

definition tabulate :: "nat \<Rightarrow> nat \<Rightarrow> (nat \<Rightarrow> nat \<Rightarrow> fl) \<Rightarrow> ndarray" where
  "tabulate r c f = \<lparr>ncols = c, rows = map (\<lambda>i. map (\<lambda>j. f i j) [0..<c]) [0..<r]\<rparr>"

datatype error = ValueError

text \<open>\<open>m.T\<close>\<close>

definition arr_T :: "ndarray \<Rightarrow> ndarray" where
  "arr_T m = tabulate (ncols m) (nrows m) (\<lambda>i j. el m j i)"

text \<open>\<open>a @ b\<close>: numpy raises ValueError unless the inner dimensions agree.\<close>

definition matmul :: "ndarray \<Rightarrow> ndarray \<Rightarrow> error + ndarray" where
  "matmul a b =
     (if ncols a = nrows b
      then Inr (tabulate (nrows a) (ncols b)
                  (\<lambda>i j. fsum (map (\<lambda>k. fmul (el a i k) (el b k j)) [0..<ncols a])))
      else Inl ValueError)"

text \<open>
  Elementwise operations broadcast: two dimensions are compatible when they are equal or
  one of them is 1, and the axis of length 1 is repeated.
\<close>

definition bdim :: "nat \<Rightarrow> nat \<Rightarrow> nat option" where
  "bdim p q = (if p = q then Some p else if p = 1 then Some q else if q = 1 then Some p else None)"

definition bidx :: "nat \<Rightarrow> nat \<Rightarrow> nat" where
  "bidx n i = (if n = 1 then 0 else i)"

definition broadcast :: "(fl \<Rightarrow> fl \<Rightarrow> fl) \<Rightarrow> ndarray \<Rightarrow> ndarray \<Rightarrow> error + ndarray" where
  "broadcast f a b =
     (case bdim (nrows a) (nrows b) of
        None \<Rightarrow> Inl ValueError
      | Some r \<Rightarrow>
         (case bdim (ncols a) (ncols b) of
            None \<Rightarrow> Inl ValueError
          | Some c \<Rightarrow>
              Inr (tabulate r c
                     (\<lambda>i j. f (el a (bidx (nrows a) i) (bidx (ncols a) j))
                              (el b (bidx (nrows b) i) (bidx (ncols b) j))))))"

text \<open>\<open>s * m\<close> for a scalar \<open>s\<close>\<close>

definition smul :: "fl \<Rightarrow> ndarray \<Rightarrow> ndarray" where
  "smul s m = m\<lparr>rows := map (map (fmul s)) (rows m)\<rparr>"

text \<open>\<open>tmp[np.isnan(tmp)] = 0\<close>\<close>

definition mask_nan :: "ndarray \<Rightarrow> ndarray" where
  "mask_nan m = m\<lparr>rows := map (map (\<lambda>v. if isnan v then Num 0 else v)) (rows m)\<rparr>"

text \<open>
  \<open>a -= d\<close> writes \<open>a - d\<close> into \<open>a\<close>: the broadcast shape has to be the shape of \<open>a\<close>,
  otherwise numpy raises ValueError and \<open>a\<close> is left as it was.
\<close>

definition isub :: "ndarray \<Rightarrow> ndarray \<Rightarrow> error + ndarray" where
  "isub a d =
     (case broadcast fsub a d of
        Inl e \<Rightarrow> Inl e
      | Inr r \<Rightarrow> if nrows r = nrows a \<and> ncols r = ncols a then Inr r else Inl ValueError)"

section \<open>The two functions of the notebook\<close>

text \<open>
  The three arguments are three array objects; the environment holds their contents.
  A call ends by returning a value or by raising, and in both cases leaves an environment
  behind: the arrays as the caller sees them afterwards.
\<close>

record env =
  arr_theta :: ndarray
  arr_x :: ndarray
  arr_y :: ndarray

datatype 'a outcome = Return 'a env | Raise error env

fun final_env :: "'a outcome \<Rightarrow> env" where
  "final_env (Return v s) = s"
| "final_env (Raise e s) = s"

text \<open>
  The first two lines of both functions: \<open>tmp = theta @ x.T - y\<close> builds a new array, and
  \<open>tmp[np.isnan(tmp)] = 0\<close> overwrites its not-a-number entries.
\<close>

definition residual :: "env \<Rightarrow> error + ndarray" where
  "residual s =
     (case matmul (arr_theta s) (arr_T (arr_x s)) of
        Inl e \<Rightarrow> Inl e
      | Inr p \<Rightarrow>
         (case broadcast fsub p (arr_y s) of
            Inl e \<Rightarrow> Inl e
          | Inr tmp \<Rightarrow> Inr (mask_nan tmp)))"

text \<open>One pass through the body of the loop of \<open>gradient_descent\<close>.\<close>

definition gd_step :: "fl \<Rightarrow> fl \<Rightarrow> env \<Rightarrow> (error \<times> env) + env" where
  "gd_step alpha beta s =
     (case residual s of
        Inl e \<Rightarrow> Inl (e, s)
      | Inr tmp \<Rightarrow>
     (case (case matmul (arr_T tmp) (arr_theta s) of
              Inl e \<Rightarrow> Inl e
            | Inr p \<Rightarrow> broadcast fadd p (smul beta (arr_x s))) of
        Inl e \<Rightarrow> Inl (e, s)
      | Inr dx \<Rightarrow>
     (case (case matmul tmp (arr_x s) of
              Inl e \<Rightarrow> Inl e
            | Inr p \<Rightarrow> broadcast fadd p (smul beta (arr_theta s))) of
        Inl e \<Rightarrow> Inl (e, s)
      | Inr dtheta \<Rightarrow>
     (case isub (arr_x s) (smul alpha dx) of
        Inl e \<Rightarrow> Inl (e, s)
      | Inr x' \<Rightarrow>
     (case isub (arr_theta s) (smul alpha dtheta) of
        Inl e \<Rightarrow> Inl (e, s\<lparr>arr_x := x'\<rparr>)
      | Inr theta' \<Rightarrow> Inr (s\<lparr>arr_x := x', arr_theta := theta'\<rparr>))))))"

text \<open>\<open>for _ in range(max_iter)\<close>\<close>

fun gd_loop :: "nat \<Rightarrow> fl \<Rightarrow> fl \<Rightarrow> env \<Rightarrow> (error \<times> env) + env" where
  "gd_loop 0 alpha beta s = Inr s"
| "gd_loop (Suc n) alpha beta s =
     (case gd_step alpha beta s of
        Inl es \<Rightarrow> Inl es
      | Inr s' \<Rightarrow> gd_loop n alpha beta s')"

text \<open>
  \<open>range(max_iter)\<close> is empty for a negative \<open>max_iter\<close>. The function returns the pair of
  the two arrays it has updated in place.
\<close>

definition gradient_descent :: "env \<Rightarrow> int \<Rightarrow> fl \<Rightarrow> fl \<Rightarrow> (ndarray \<times> ndarray) outcome" where
  "gradient_descent s max_iter alpha beta =
     (case gd_loop (nat max_iter) alpha beta s of
        Inl (e, s') \<Rightarrow> Raise e s'
      | Inr s' \<Rightarrow> Return (arr_theta s', arr_x s') s')"

text \<open>\<open>0.5 * (tmp ** 2).sum()\<close>\<close>

definition cost :: "env \<Rightarrow> fl outcome" where
  "cost s =
     (case residual s of
        Inl e \<Rightarrow> Raise e s
      | Inr tmp \<Rightarrow>
          Return (fmul (Num (1/2)) (fsum (map (\<lambda>r. fsum (map (\<lambda>v. fmul v v) r)) (rows tmp)))) s)"

section \<open>The specification's vocabulary\<close>

text \<open>\<open>np.array\<close> of a nested list: the number of columns is the length of the first row.\<close>

definition arr :: "fl list list \<Rightarrow> ndarray" where
  "arr rs = \<lparr>ncols = (case rs of [] \<Rightarrow> 0 | r # _ \<Rightarrow> length r), rows = rs\<rparr>"

text \<open>An array without an infinite entry.\<close>

definition no_inf :: "ndarray \<Rightarrow> bool" where
  "no_inf m = list_all (list_all (\<lambda>v. \<not> is_inf v)) (rows m)"

text \<open>
  The environments of the data model: every array is rectangular, as every numpy array is,
  and every rating is a number or missing, so that \<open>y\<close> holds no infinity. The entries of
  \<open>theta\<close> and \<open>x\<close> are arbitrary.
\<close>

definition rect_env :: "env \<Rightarrow> bool" where
  "rect_env s = (rect (arr_theta s) \<and> rect (arr_x s) \<and> rect (arr_y s) \<and> no_inf (arr_y s))"

text \<open>
  Compatible shapes: \<open>theta\<close> is users by k, \<open>x\<close> is items by k, \<open>y\<close> is users by items.
\<close>

definition compatible :: "env \<Rightarrow> bool" where
  "compatible s =
     (ncols (arr_theta s) = ncols (arr_x s) \<and>
      nrows (arr_theta s) = nrows (arr_y s) \<and>
      nrows (arr_x s) = ncols (arr_y s))"

text \<open>An array whose entries are all finite: no not-a-number and no infinity.\<close>

definition all_fin :: "ndarray \<Rightarrow> bool" where
  "all_fin m = list_all (list_all finite_fl) (rows m)"

text \<open>Entry \<open>(i, j)\<close> of the reconstruction: the inner product of user \<open>i\<close> and item \<open>j\<close>.\<close>

definition recon :: "env \<Rightarrow> nat \<Rightarrow> nat \<Rightarrow> fl" where
  "recon s i j =
     fsum (map (\<lambda>k. fmul (el (arr_theta s) i k) (el (arr_x s) j k)) [0..<ncols (arr_theta s)])"

text \<open>
  Entry \<open>(i, j)\<close> of the residual with every not-a-number entry replaced by 0.
\<close>

definition spec_residual :: "env \<Rightarrow> nat \<Rightarrow> nat \<Rightarrow> fl" where
  "spec_residual s i j =
     (let v = fsub (recon s i j) (el (arr_y s) i j) in if isnan v then Num 0 else v)"

text \<open>
  One step, entry by entry: with \<open>R\<close> the residual of the state before the step, its
  not-a-number entries replaced by 0, \<open>x[j][f]\<close> becomes \<open>x[j][f] - alpha * (sum over users i of
  R[i][j] * theta[i][f] + beta * x[j][f])\<close> and \<open>theta[i][f]\<close> becomes \<open>theta[i][f] - alpha *
  (sum over items j of R[i][j] * x[j][f] + beta * theta[i][f])\<close>, both read from the state
  before the step.
\<close>

definition spec_step :: "fl \<Rightarrow> fl \<Rightarrow> env \<Rightarrow> env" where
  "spec_step alpha beta s =
     s\<lparr>arr_x := tabulate (nrows (arr_x s)) (ncols (arr_x s))
          (\<lambda>j f. fsub (el (arr_x s) j f)
             (fmul alpha
                (fadd (fsum (map (\<lambda>i. fmul (spec_residual s i j) (el (arr_theta s) i f))
                               [0..<nrows (arr_theta s)]))
                      (fmul beta (el (arr_x s) j f))))),
       arr_theta := tabulate (nrows (arr_theta s)) (ncols (arr_theta s))
          (\<lambda>i f. fsub (el (arr_theta s) i f)
             (fmul alpha
                (fadd (fsum (map (\<lambda>j. fmul (spec_residual s i j) (el (arr_x s) j f))
                               [0..<nrows (arr_x s)]))
                      (fmul beta (el (arr_theta s) i f)))))\<rparr>"

text \<open>
  The cost in the specification's words: the residual with the entries at the missing
  positions of \<open>y\<close> replaced by 0, squared, summed and halved.
\<close>

definition spec_cost :: "env \<Rightarrow> fl" where
  "spec_cost s =
     fmul (Num (1/2))
       (fsum (map (\<lambda>i. fsum (map (\<lambda>j.
                 let r = (if isnan (el (arr_y s) i j) then Num 0
                          else fsub (recon s i j) (el (arr_y s) i j))
                 in fmul r r) [0..<nrows (arr_x s)]))
          [0..<nrows (arr_theta s)]))"

text \<open>
  Entry \<open>(i, j)\<close> of the residual masked as the specification words it: 0 where the
  rating is missing, and the difference everywhere else.
\<close>

definition y_masked_residual :: "env \<Rightarrow> nat \<Rightarrow> nat \<Rightarrow> fl" where
  "y_masked_residual s i j =
     (if isnan (el (arr_y s) i j) then Num 0 else fsub (recon s i j) (el (arr_y s) i j))"

text \<open>The step with the residual masked at the missing positions of \<open>y\<close> only.\<close>

definition y_masked_step :: "fl \<Rightarrow> fl \<Rightarrow> env \<Rightarrow> env" where
  "y_masked_step alpha beta s =
     s\<lparr>arr_x := tabulate (nrows (arr_x s)) (ncols (arr_x s))
          (\<lambda>j f. fsub (el (arr_x s) j f)
             (fmul alpha
                (fadd (fsum (map (\<lambda>i. fmul (y_masked_residual s i j) (el (arr_theta s) i f))
                               [0..<nrows (arr_theta s)]))
                      (fmul beta (el (arr_x s) j f))))),
       arr_theta := tabulate (nrows (arr_theta s)) (ncols (arr_theta s))
          (\<lambda>i f. fsub (el (arr_theta s) i f)
             (fmul alpha
                (fadd (fsum (map (\<lambda>j. fmul (y_masked_residual s i j) (el (arr_x s) j f))
                               [0..<nrows (arr_x s)]))
                      (fmul beta (el (arr_theta s) i f)))))\<rparr>"

text \<open>
  Entry \<open>(j, f)\<close> of the gradient \<open>dx\<close> and entry \<open>(i, f)\<close> of the gradient \<open>dtheta\<close>
  of a step.
\<close>

definition grad_x :: "fl \<Rightarrow> env \<Rightarrow> nat \<Rightarrow> nat \<Rightarrow> fl" where
  "grad_x beta s j f =
     fadd (fsum (map (\<lambda>i. fmul (spec_residual s i j) (el (arr_theta s) i f))
                   [0..<nrows (arr_theta s)]))
          (fmul beta (el (arr_x s) j f))"

definition grad_theta :: "fl \<Rightarrow> env \<Rightarrow> nat \<Rightarrow> nat \<Rightarrow> fl" where
  "grad_theta beta s i f =
     fadd (fsum (map (\<lambda>j. fmul (spec_residual s i j) (el (arr_x s) j f))
                   [0..<nrows (arr_x s)]))
          (fmul beta (el (arr_theta s) i f))"

text \<open>The array \<open>m\<close> with row \<open>u\<close> replaced by \<open>r\<close>.\<close>

definition set_row :: "ndarray \<Rightarrow> nat \<Rightarrow> fl list \<Rightarrow> ndarray" where
  "set_row m u r = m\<lparr>rows := (rows m)[u := r]\<rparr>"

text \<open>Examples: two users, two items and one feature, with one rating missing.\<close>

definition ex_env :: env where
  "ex_env = \<lparr>arr_theta = arr [[Num 1], [Num 2]],
             arr_x = arr [[Num 1], [Num 3]],
             arr_y = arr [[Num 2, NaN], [Num 1, Num 5]]\<rparr>"

text \<open>The second user has rated nothing.\<close>

definition ex_missing_row :: env where
  "ex_missing_row = \<lparr>arr_theta = arr [[Num 1], [Num 2]],
                     arr_x = arr [[Num 1], [Num 3]],
                     arr_y = arr [[Num 2, Num 4], [NaN, NaN]]\<rparr>"

text \<open>Two users and one item, with a \<open>y\<close> of a single row.\<close>

definition ex_broadcast :: env where
  "ex_broadcast = \<lparr>arr_theta = arr [[Num 1], [Num 2]],
                   arr_x = arr [[Num 1]],
                   arr_y = arr [[Num 1]]\<rparr>"

text \<open>The feature dimensions differ: \<open>theta\<close> is 1 by 2 and \<open>x\<close> is 1 by 1.\<close>

definition ex_mismatch :: env where
  "ex_mismatch = \<lparr>arr_theta = arr [[Num 1, Num 2]],
                  arr_x = arr [[Num 1]],
                  arr_y = arr [[Num 1]]\<rparr>"

text \<open>One user and one item, with a not-a-number in \<open>theta\<close>, and with one in \<open>x\<close>.\<close>

definition ex_nan_theta :: env where
  "ex_nan_theta = \<lparr>arr_theta = arr [[NaN]], arr_x = arr [[Num 1]], arr_y = arr [[Num 1]]\<rparr>"

definition ex_nan_x :: env where
  "ex_nan_x = \<lparr>arr_theta = arr [[Num 1]], arr_x = arr [[NaN]], arr_y = arr [[NaN]]\<rparr>"

text \<open>One user who has rated nothing, and an infinite feature.\<close>

definition ex_inf_x :: env where
  "ex_inf_x = \<lparr>arr_theta = arr [[Num 1]], arr_x = arr [[PInf]], arr_y = arr [[NaN]]\<rparr>"

text \<open>One user, one item and two features, the first parameter not-a-number.\<close>

definition ex_nan_feature :: env where
  "ex_nan_feature = \<lparr>arr_theta = arr [[NaN, Num 1]],
                     arr_x = arr [[Num 1, Num 1]],
                     arr_y = arr [[Num 1]]\<rparr>"

text \<open>Finite entries whose product overflows.\<close>

definition ex_overflow :: env where
  "ex_overflow = \<lparr>arr_theta = arr [[Num (2 ^ 512)]],
                  arr_x = arr [[Num (2 ^ 512)]],
                  arr_y = arr [[Num 1]]\<rparr>"

section \<open>Arithmetic\<close>

lemma threshold_big: "1000000 < overflow_threshold"
  by (simp add: overflow_threshold_def)

lemma ovf_small [simp]: "\<bar>r\<bar> \<le> 1000000 \<Longrightarrow> ovf r = Num r"
  using threshold_big by (auto simp: ovf_def)

lemma ovf_finite: "\<bar>r\<bar> < overflow_threshold \<Longrightarrow> ovf r = Num r"
  by (auto simp: ovf_def)

lemma not_isnan_ovf [simp]: "\<not> isnan (ovf r)"
  by (simp add: ovf_def)

lemma nonneg_ovf: "0 \<le> r \<Longrightarrow> nonneg (ovf r)"
  using threshold_big by (auto simp: ovf_def)

lemma fsub_missing: "isnan b \<Longrightarrow> fsub a b = NaN"
  by (cases a; cases b) (simp_all add: fsub_def)

lemma fsub_NaN_left [simp]: "fsub NaN b = NaN"
  by (cases b) (simp_all add: fsub_def)

lemma isnan_fsub: "\<not> is_inf b \<Longrightarrow> isnan (fsub a b) = (isnan a \<or> isnan b)"
  by (cases a; cases b) (simp_all add: fsub_def)

lemma fmul_zero_finite: "finite_fl v \<Longrightarrow> fmul (Num 0) v = Num 0"
  by (cases v) simp_all

lemma fsub_zero: "finite_fl v \<Longrightarrow> fsub v (Num 0) = v"
  by (cases v) (simp_all add: fsub_def ovf_finite)

lemma nonneg_square: "\<not> isnan v \<Longrightarrow> nonneg (fmul v v)"
  by (cases v) (simp_all add: nonneg_ovf)

lemma nonneg_fadd: "nonneg a \<Longrightarrow> nonneg b \<Longrightarrow> nonneg (fadd a b)"
  by (cases a; cases b) (simp_all add: nonneg_ovf)

lemma nonneg_half: "nonneg c \<Longrightarrow> nonneg (fmul (Num (1/2)) c)"
  by (cases c) (simp_all add: nonneg_ovf signed_inf_def)

lemma nonneg_fsum: "(\<And>v. v \<in> set vs \<Longrightarrow> nonneg v) \<Longrightarrow> nonneg (fsum vs)"
  by (induction vs) (simp_all add: nonneg_fadd)

section \<open>Arrays built entry by entry\<close>

lemma nrows_tabulate [simp]: "nrows (tabulate r c f) = r"
  by (simp add: nrows_def tabulate_def)

lemma ncols_tabulate [simp]: "ncols (tabulate r c f) = c"
  by (simp add: tabulate_def)

lemma rect_tabulate [simp]: "rect (tabulate r c f)"
  by (simp add: rect_def tabulate_def list_all_iff)

lemma el_tabulate [simp]: "i < r \<Longrightarrow> j < c \<Longrightarrow> el (tabulate r c f) i j = f i j"
  by (simp add: el_def tabulate_def)

lemma tabulate_cong:
  "(\<And>i j. i < r \<Longrightarrow> j < c \<Longrightarrow> f i j = g i j) \<Longrightarrow> tabulate r c f = tabulate r c g"
  by (simp add: tabulate_def)

lemma rect_canonical:
  assumes "rect m"
  shows "tabulate (nrows m) (ncols m) (el m) = m"
proof -
  let ?rs = "map (\<lambda>i. map (\<lambda>j. rows m ! i ! j) [0..<ncols m]) [0..<length (rows m)]"
  have "?rs = rows m"
  proof (rule nth_equalityI)
    show "length ?rs = length (rows m)"
      by simp
  next
    fix i assume "i < length ?rs"
    then have i: "i < length (rows m)" by simp
    with assms have "length (rows m ! i) = ncols m"
      by (simp add: rect_def list_all_length)
    then have "map (\<lambda>j. rows m ! i ! j) [0..<ncols m] = rows m ! i"
      by (metis map_nth)
    with i show "?rs ! i = rows m ! i"
      by simp
  qed
  then show ?thesis
    by (simp add: tabulate_def el_def nrows_def)
qed

lemma smul_tabulate: "smul a (tabulate r c f) = tabulate r c (\<lambda>i j. fmul a (f i j))"
  by (simp add: smul_def tabulate_def comp_def)

lemma mask_nan_tabulate:
  "mask_nan (tabulate r c f) = tabulate r c (\<lambda>i j. if isnan (f i j) then Num 0 else f i j)"
  by (simp add: mask_nan_def tabulate_def comp_def)

lemma bdim_same [simp]: "bdim p p = Some p"
  by (simp add: bdim_def)

lemma broadcast_same:
  "nrows a = nrows b \<Longrightarrow> ncols a = ncols b \<Longrightarrow>
   broadcast f a b = Inr (tabulate (nrows a) (ncols a) (\<lambda>i j. f (el a i j) (el b i j)))"
  by (auto simp: broadcast_def bidx_def intro!: tabulate_cong)

lemma isub_same:
  "nrows a = nrows b \<Longrightarrow> ncols a = ncols b \<Longrightarrow>
   isub a b = Inr (tabulate (nrows a) (ncols a) (\<lambda>i j. fsub (el a i j) (el b i j)))"
  by (simp add: isub_def broadcast_same)

lemma nrows_smul [simp]: "nrows (smul a m) = nrows m"
  by (simp add: smul_def nrows_def)

lemma ncols_smul [simp]: "ncols (smul a m) = ncols m"
  by (simp add: smul_def)

lemma nrows_mask_nan [simp]: "nrows (mask_nan m) = nrows m"
  by (simp add: mask_nan_def nrows_def)

lemma ncols_mask_nan [simp]: "ncols (mask_nan m) = ncols m"
  by (simp add: mask_nan_def)

lemma el_smul [simp]:
  "i < nrows m \<Longrightarrow> j < ncols m \<Longrightarrow> rect m \<Longrightarrow> el (smul a m) i j = fmul a (el m i j)"
  by (simp add: smul_def el_def nrows_def rect_def list_all_length)

lemma fsum_cong:
  "(\<And>k. k < n \<Longrightarrow> f k = g k) \<Longrightarrow> fsum (map f [0..<n]) = fsum (map g [0..<n])"
  by (rule arg_cong [where f = fsum]) simp

section \<open>The code computes the step of the specification\<close>

lemma matmul_recon:
  assumes "compatible s"
  shows "matmul (arr_theta s) (arr_T (arr_x s))
       = Inr (tabulate (nrows (arr_theta s)) (nrows (arr_x s)) (recon s))"
  using assms
  by (auto simp: matmul_def arr_T_def compatible_def recon_def intro!: tabulate_cong fsum_cong)

lemma residual_ok:
  assumes "compatible s"
  shows "residual s = Inr (tabulate (nrows (arr_theta s)) (nrows (arr_x s)) (spec_residual s))"
  using assms
  by (auto simp: residual_def matmul_recon broadcast_same compatible_def mask_nan_tabulate
      spec_residual_def Let_def intro!: tabulate_cong)

lemma gd_step_ok:
  assumes "rect_env s" "compatible s"
  shows "gd_step alpha beta s = Inr (spec_step alpha beta s)"
proof -
  let ?R = "tabulate (nrows (arr_theta s)) (nrows (arr_x s)) (spec_residual s)"
  let ?dx = "tabulate (nrows (arr_x s)) (ncols (arr_x s))
              (\<lambda>j f. fadd (fsum (map (\<lambda>i. fmul (spec_residual s i j) (el (arr_theta s) i f))
                               [0..<nrows (arr_theta s)]))
                      (fmul beta (el (arr_x s) j f)))"
  let ?dt = "tabulate (nrows (arr_theta s)) (ncols (arr_theta s))
              (\<lambda>i f. fadd (fsum (map (\<lambda>j. fmul (spec_residual s i j) (el (arr_x s) j f))
                               [0..<nrows (arr_x s)]))
                      (fmul beta (el (arr_theta s) i f)))"
  have dx: "(case matmul (arr_T ?R) (arr_theta s) of
              Inl e \<Rightarrow> Inl e
            | Inr p \<Rightarrow> broadcast fadd p (smul beta (arr_x s))) = Inr ?dx"
    using assms
    by (auto simp: matmul_def arr_T_def broadcast_same compatible_def rect_env_def
        intro!: tabulate_cong fsum_cong arg_cong2 [where f = fadd])
  have dt: "(case matmul ?R (arr_x s) of
              Inl e \<Rightarrow> Inl e
            | Inr p \<Rightarrow> broadcast fadd p (smul beta (arr_theta s))) = Inr ?dt"
    using assms
    by (auto simp: matmul_def arr_T_def broadcast_same compatible_def rect_env_def
        intro!: tabulate_cong fsum_cong arg_cong2 [where f = fadd])
  have ux: "isub (arr_x s) (smul alpha ?dx) = Inr (arr_x (spec_step alpha beta s))"
    by (simp add: isub_same smul_tabulate spec_step_def) (rule tabulate_cong, simp)
  have ut: "isub (arr_theta s) (smul alpha ?dt) = Inr (arr_theta (spec_step alpha beta s))"
    by (simp add: isub_same smul_tabulate spec_step_def) (rule tabulate_cong, simp)
  have "s\<lparr>arr_x := arr_x (spec_step alpha beta s),
          arr_theta := arr_theta (spec_step alpha beta s)\<rparr> = spec_step alpha beta s"
    by (simp add: spec_step_def)
  then show ?thesis
    using assms by (simp add: gd_step_def residual_ok dx dt ux ut)
qed

lemma spec_step_shapes:
  "nrows (arr_theta (spec_step alpha beta s)) = nrows (arr_theta s)"
  "ncols (arr_theta (spec_step alpha beta s)) = ncols (arr_theta s)"
  "nrows (arr_x (spec_step alpha beta s)) = nrows (arr_x s)"
  "ncols (arr_x (spec_step alpha beta s)) = ncols (arr_x s)"
  "arr_y (spec_step alpha beta s) = arr_y s"
  by (simp_all add: spec_step_def)

lemma spec_step_compatible: "compatible s \<Longrightarrow> compatible (spec_step alpha beta s)"
  by (simp add: compatible_def spec_step_shapes)

lemma spec_step_rect_env: "rect_env s \<Longrightarrow> rect_env (spec_step alpha beta s)"
  by (simp add: rect_env_def spec_step_def)

lemma spec_steps_shapes:
  "nrows (arr_theta ((spec_step alpha beta ^^ n) s)) = nrows (arr_theta s) \<and>
   ncols (arr_theta ((spec_step alpha beta ^^ n) s)) = ncols (arr_theta s) \<and>
   nrows (arr_x ((spec_step alpha beta ^^ n) s)) = nrows (arr_x s) \<and>
   ncols (arr_x ((spec_step alpha beta ^^ n) s)) = ncols (arr_x s) \<and>
   arr_y ((spec_step alpha beta ^^ n) s) = arr_y s"
  by (induction n) (simp_all add: spec_step_shapes)

lemma spec_steps_rect_env: "rect_env s \<Longrightarrow> rect_env ((spec_step alpha beta ^^ n) s)"
  by (induction n) (simp_all add: spec_step_rect_env)

lemma spec_steps_compatible: "compatible s \<Longrightarrow> compatible ((spec_step alpha beta ^^ n) s)"
  by (induction n) (simp_all add: spec_step_compatible)

lemma gd_loop_ok:
  assumes "rect_env s" "compatible s"
  shows "gd_loop n alpha beta s = Inr ((spec_step alpha beta ^^ n) s)"
  using assms
proof (induction n arbitrary: s)
  case 0
  show ?case by simp
next
  case (Suc n)
  have "gd_loop (Suc n) alpha beta s = gd_loop n alpha beta (spec_step alpha beta s)"
    using Suc.prems by (simp add: gd_step_ok)
  also have "\<dots> = Inr ((spec_step alpha beta ^^ n) (spec_step alpha beta s))"
    using Suc.prems by (intro Suc.IH spec_step_rect_env spec_step_compatible)
  finally show ?case
    by (simp add: funpow_swap1)
qed

lemma gradient_descent_ok:
  assumes "rect_env s" "compatible s"
  shows "gradient_descent s max_iter alpha beta =
         Return (arr_theta ((spec_step alpha beta ^^ nat max_iter) s),
                 arr_x ((spec_step alpha beta ^^ nat max_iter) s))
                ((spec_step alpha beta ^^ nat max_iter) s)"
  using assms by (simp add: gradient_descent_def gd_loop_ok)

section \<open>Facts about the examples and the loop\<close>

lemma ex_env_ok: "rect_env ex_env \<and> compatible ex_env"
  by (simp add: ex_env_def rect_env_def compatible_def rect_def no_inf_def arr_def nrows_def)

lemma ex_step:
  "spec_step (Num 1) (Num 0) ex_env =
     ex_env\<lparr>arr_x := arr [[Num 0], [Num 1]], arr_theta := arr [[Num 2], [Num (-2)]]\<rparr>"
  by (simp add: spec_step_def ex_env_def arr_def nrows_def tabulate_def el_def
      spec_residual_def recon_def fsub_def Let_def)

lemma gd_loop_add:
  "gd_loop (m + n) alpha beta s =
     (case gd_loop m alpha beta s of Inl es \<Rightarrow> Inl es | Inr s1 \<Rightarrow> gd_loop n alpha beta s1)"
  by (induction m arbitrary: s) (simp_all split: sum.splits)

lemma gd_step_frame:
  "arr_y (case gd_step alpha beta s of Inl (e, s') \<Rightarrow> s' | Inr s' \<Rightarrow> s') = arr_y s"
  by (simp add: gd_step_def split: sum.splits)

lemma gd_loop_frame:
  "arr_y (case gd_loop n alpha beta s of Inl (e, s') \<Rightarrow> s' | Inr s' \<Rightarrow> s') = arr_y s"
proof (induction n arbitrary: s)
  case 0
  show ?case by simp
next
  case (Suc n)
  show ?case
  proof (cases "gd_step alpha beta s")
    case (Inl es)
    with gd_step_frame [of alpha beta s] show ?thesis
      by (simp split: prod.splits)
  next
    case (Inr s1)
    with gd_step_frame [of alpha beta s] have "arr_y s1 = arr_y s" by simp
    with Suc.IH [of s1] Inr show ?thesis by simp
  qed
qed

lemmas eval_defs = gradient_descent_def gd_step_def residual_def matmul_def broadcast_def bdim_def
  bidx_def arr_T_def tabulate_def isub_def smul_def mask_nan_def el_def nrows_def arr_def cost_def
  fsub_def signed_inf_def

lemma error_is_ValueError [simp]: "(e = ValueError) = True"
  by (cases e) simp

lemma residual_shape_error:
  assumes "ncols (arr_theta s) \<noteq> ncols (arr_x s)
         \<or> (nrows (arr_theta s) \<noteq> nrows (arr_y s) \<and> nrows (arr_theta s) \<noteq> 1 \<and> nrows (arr_y s) \<noteq> 1)
         \<or> (nrows (arr_x s) \<noteq> ncols (arr_y s) \<and> nrows (arr_x s) \<noteq> 1 \<and> ncols (arr_y s) \<noteq> 1)"
  shows "residual s = Inl ValueError"
  using assms
  by (auto simp: residual_def matmul_def arr_T_def broadcast_def bdim_def split: sum.splits option.splits)

lemma gd_step_shape_error:
  assumes "ncols (arr_theta s) \<noteq> ncols (arr_x s)
         \<or> (nrows (arr_y s) \<noteq> nrows (arr_theta s) \<and> nrows (arr_y s) \<noteq> 1)
         \<or> (ncols (arr_y s) \<noteq> nrows (arr_x s) \<and> ncols (arr_y s) \<noteq> 1)"
  shows "gd_step alpha beta s = Inl (ValueError, s)"
proof (cases "residual s")
  case (Inl e)
  then show ?thesis by (cases e) (simp add: gd_step_def)
next
  case (Inr tmp)
  then have k: "ncols (arr_theta s) = ncols (arr_x s)"
    by (auto simp: residual_def matmul_def arr_T_def split: if_splits)
  from Inr have sh: "bdim (nrows (arr_theta s)) (nrows (arr_y s)) = Some (nrows tmp)"
     "bdim (nrows (arr_x s)) (ncols (arr_y s)) = Some (ncols tmp)"
    by (auto simp: residual_def matmul_def arr_T_def broadcast_def split: if_splits option.splits)
  from assms k have "nrows tmp \<noteq> nrows (arr_theta s) \<or> (nrows tmp = nrows (arr_theta s) \<and> ncols tmp \<noteq> nrows (arr_x s))"
    using sh by (auto simp: bdim_def split: if_splits)
  then show ?thesis
  proof
    assume "nrows tmp \<noteq> nrows (arr_theta s)"
    then show ?thesis
      by (simp add: gd_step_def Inr matmul_def arr_T_def)
  next
    assume a: "nrows tmp = nrows (arr_theta s) \<and> ncols tmp \<noteq> nrows (arr_x s)"
    then have "matmul tmp (arr_x s) = Inl ValueError"
      by (simp add: matmul_def)
    then show ?thesis
      by (simp add: gd_step_def Inr split: sum.splits)
  qed
qed

lemma spec_residual_not_nan: "\<not> isnan (spec_residual s i j)"
  by (simp add: spec_residual_def Let_def)

lemma spec_residual_missing:
  "isnan (el (arr_y s) i j) \<Longrightarrow> spec_residual s i j = Num 0"
  by (simp add: spec_residual_def fsub_missing)

lemma cost_ok:
  assumes "compatible s"
  shows "cost s = Return (fmul (Num (1/2))
           (fsum (map (\<lambda>i. fsum (map (\<lambda>j. fmul (spec_residual s i j) (spec_residual s i j))
                                     [0..<nrows (arr_x s)])) [0..<nrows (arr_theta s)]))) s"
  using assms by (simp add: cost_def residual_ok tabulate_def comp_def)

lemma no_inf_el:
  "no_inf m \<Longrightarrow> rect m \<Longrightarrow> i < nrows m \<Longrightarrow> j < ncols m \<Longrightarrow> \<not> is_inf (el m i j)"
  by (simp add: no_inf_def rect_def nrows_def el_def list_all_length)

lemma all_fin_el:
  "all_fin m \<Longrightarrow> rect m \<Longrightarrow> i < nrows m \<Longrightarrow> j < ncols m \<Longrightarrow> finite_fl (el m i j)"
  by (simp add: all_fin_def rect_def nrows_def el_def list_all_length)

lemma rating_not_inf:
  assumes "rect_env s" and "compatible s"
    and "i < nrows (arr_theta s)" and "j < nrows (arr_x s)"
  shows "\<not> is_inf (el (arr_y s) i j)"
  using assms by (intro no_inf_el) (simp_all add: rect_env_def compatible_def)

lemma spec_residual_y_masked:
  assumes "rect_env s" and "compatible s"
    and "i < nrows (arr_theta s)" and "j < nrows (arr_x s)"
    and "\<not> isnan (recon s i j)"
  shows "spec_residual s i j = y_masked_residual s i j"
  using rating_not_inf [OF assms(1-4)] assms(5)
  by (simp add: spec_residual_def y_masked_residual_def Let_def isnan_fsub)

lemma spec_step_y_masked:
  assumes "rect_env s" and "compatible s"
    and "\<forall>i<nrows (arr_theta s). \<forall>j<nrows (arr_x s). \<not> isnan (recon s i j)"
  shows "spec_step alpha beta s = y_masked_step alpha beta s"
proof -
  have r: "spec_residual s i j = y_masked_residual s i j"
    if "i < nrows (arr_theta s)" "j < nrows (arr_x s)" for i j
    using spec_residual_y_masked [OF assms(1,2) that] assms(3) that by simp
  have 1: "fsum (map (\<lambda>i. fmul (spec_residual s i j) (el (arr_theta s) i f))
                   [0..<nrows (arr_theta s)])
         = fsum (map (\<lambda>i. fmul (y_masked_residual s i j) (el (arr_theta s) i f))
                   [0..<nrows (arr_theta s)])"
    if "j < nrows (arr_x s)" for j f
    by (rule fsum_cong) (simp add: r that)
  have 2: "fsum (map (\<lambda>j. fmul (spec_residual s i j) (el (arr_x s) j f))
                   [0..<nrows (arr_x s)])
         = fsum (map (\<lambda>j. fmul (y_masked_residual s i j) (el (arr_x s) j f))
                   [0..<nrows (arr_x s)])"
    if "i < nrows (arr_theta s)" for i f
    by (rule fsum_cong) (simp add: r that)
  have "tabulate (nrows (arr_x s)) (ncols (arr_x s))
          (\<lambda>j f. fsub (el (arr_x s) j f)
             (fmul alpha
                (fadd (fsum (map (\<lambda>i. fmul (spec_residual s i j) (el (arr_theta s) i f))
                               [0..<nrows (arr_theta s)]))
                      (fmul beta (el (arr_x s) j f)))))
      = tabulate (nrows (arr_x s)) (ncols (arr_x s))
          (\<lambda>j f. fsub (el (arr_x s) j f)
             (fmul alpha
                (fadd (fsum (map (\<lambda>i. fmul (y_masked_residual s i j) (el (arr_theta s) i f))
                               [0..<nrows (arr_theta s)]))
                      (fmul beta (el (arr_x s) j f)))))"
    by (rule tabulate_cong) (simp add: 1)
  moreover have "tabulate (nrows (arr_theta s)) (ncols (arr_theta s))
          (\<lambda>i f. fsub (el (arr_theta s) i f)
             (fmul alpha
                (fadd (fsum (map (\<lambda>j. fmul (spec_residual s i j) (el (arr_x s) j f))
                               [0..<nrows (arr_x s)]))
                      (fmul beta (el (arr_theta s) i f)))))
      = tabulate (nrows (arr_theta s)) (ncols (arr_theta s))
          (\<lambda>i f. fsub (el (arr_theta s) i f)
             (fmul alpha
                (fadd (fsum (map (\<lambda>j. fmul (y_masked_residual s i j) (el (arr_x s) j f))
                               [0..<nrows (arr_x s)]))
                      (fmul beta (el (arr_theta s) i f)))))"
    by (rule tabulate_cong) (simp add: 2)
  ultimately show ?thesis
    by (simp add: spec_step_def y_masked_step_def)
qed

lemma spec_step_grad:
  "spec_step alpha beta s =
     s\<lparr>arr_x := tabulate (nrows (arr_x s)) (ncols (arr_x s))
          (\<lambda>j f. fsub (el (arr_x s) j f) (fmul alpha (grad_x beta s j f))),
       arr_theta := tabulate (nrows (arr_theta s)) (ncols (arr_theta s))
          (\<lambda>i f. fsub (el (arr_theta s) i f) (fmul alpha (grad_theta beta s i f)))\<rparr>"
  by (simp add: spec_step_def grad_x_def grad_theta_def)

lemma spec_step_zero_rate:
  assumes "rect_env s" and "all_fin (arr_theta s)" and "all_fin (arr_x s)"
    and "\<forall>j<nrows (arr_x s). \<forall>f<ncols (arr_x s). finite_fl (grad_x (Num 0) s j f)"
    and "\<forall>i<nrows (arr_theta s). \<forall>f<ncols (arr_theta s). finite_fl (grad_theta (Num 0) s i f)"
  shows "spec_step (Num 0) (Num 0) s = s"
proof -
  have rt: "rect (arr_theta s)" and rx: "rect (arr_x s)"
    using assms(1) by (simp_all add: rect_env_def)
  have "tabulate (nrows (arr_x s)) (ncols (arr_x s))
          (\<lambda>j f. fsub (el (arr_x s) j f) (fmul (Num 0) (grad_x (Num 0) s j f)))
      = tabulate (nrows (arr_x s)) (ncols (arr_x s)) (el (arr_x s))"
  proof (rule tabulate_cong)
    fix j f assume jf: "j < nrows (arr_x s)" "f < ncols (arr_x s)"
    from assms(4) jf have "fmul (Num 0) (grad_x (Num 0) s j f) = Num 0"
      by (simp add: fmul_zero_finite)
    moreover have "finite_fl (el (arr_x s) j f)"
      by (rule all_fin_el [OF assms(3) rx jf])
    ultimately show "fsub (el (arr_x s) j f) (fmul (Num 0) (grad_x (Num 0) s j f)) = el (arr_x s) j f"
      by (simp add: fsub_zero)
  qed
  moreover have "tabulate (nrows (arr_theta s)) (ncols (arr_theta s))
          (\<lambda>i f. fsub (el (arr_theta s) i f) (fmul (Num 0) (grad_theta (Num 0) s i f)))
      = tabulate (nrows (arr_theta s)) (ncols (arr_theta s)) (el (arr_theta s))"
  proof (rule tabulate_cong)
    fix i f assume jf: "i < nrows (arr_theta s)" "f < ncols (arr_theta s)"
    from assms(5) jf have "fmul (Num 0) (grad_theta (Num 0) s i f) = Num 0"
      by (simp add: fmul_zero_finite)
    moreover have "finite_fl (el (arr_theta s) i f)"
      by (rule all_fin_el [OF assms(2) rt jf])
    ultimately show "fsub (el (arr_theta s) i f) (fmul (Num 0) (grad_theta (Num 0) s i f))
                   = el (arr_theta s) i f"
      by (simp add: fsub_zero)
  qed
  ultimately show ?thesis
    using rt rx by (simp add: spec_step_grad rect_canonical)
qed

lemma row_tabulate: "u < r \<Longrightarrow> rows (tabulate r c f) ! u = map (f u) [0..<c]"
  by (simp add: tabulate_def)

lemma row_rect:
  assumes "rect m" and "u < nrows m"
  shows "map (el m u) [0..<ncols m] = rows m ! u"
proof -
  from assms have "length (rows m ! u) = ncols m"
    by (simp add: rect_def nrows_def list_all_length)
  then show ?thesis
    unfolding el_def by (metis map_nth)
qed

lemma fsum_zero:
  assumes "\<And>k. k < n \<Longrightarrow> g k = Num 0"
  shows "fsum (map g [0..<n]) = Num 0"
proof -
  have "fsum (map g [0..<n]) = fsum (map (\<lambda>k. Num 0) [0..<n])"
    by (rule fsum_cong) (rule assms)
  also have "\<dots> = fsum (replicate n (Num 0))"
    by (simp add: map_replicate_const)
  also have "\<dots> = Num 0"
    by (induction n) simp_all
  finally show ?thesis .
qed

lemma nrows_set_row [simp]: "nrows (set_row m u r) = nrows m"
  by (simp add: set_row_def nrows_def)

lemma ncols_set_row [simp]: "ncols (set_row m u r) = ncols m"
  by (simp add: set_row_def)

lemma rect_set_row: "rect m \<Longrightarrow> length r = ncols m \<Longrightarrow> rect (set_row m u r)"
  by (auto simp: rect_def set_row_def list_all_iff dest: set_update_subset_insert [THEN subsetD])

lemma el_set_row_other: "i \<noteq> u \<Longrightarrow> el (set_row m u r) i k = el m i k"
  by (simp add: el_def set_row_def)

lemma el_set_row_same: "u < nrows m \<Longrightarrow> el (set_row m u r) u k = r ! k"
  by (simp add: el_def set_row_def nrows_def)

lemma spec_residual_set_row:
  assumes "u < nrows (arr_theta s)" and "isnan (el (arr_y s) u j)"
  shows "spec_residual (s\<lparr>arr_theta := set_row (arr_theta s) u r\<rparr>) i j = spec_residual s i j"
proof (cases "i = u")
  case True
  with assms(2) show ?thesis
    by (simp add: spec_residual_missing)
next
  case False
  then have "recon (s\<lparr>arr_theta := set_row (arr_theta s) u r\<rparr>) i j = recon s i j"
    by (simp add: recon_def el_set_row_other)
  then show ?thesis
    by (simp add: spec_residual_def)
qed

section \<open>The claims\<close>

text \<open>
  C1 (the claim fails as stated: the step zeroes the not-a-number entries of the residual,
  not only those at the missing positions of \<open>y\<close>). With the rating observed and a
  not-a-number in \<open>theta\<close>, the residual is not-a-number and the code replaces it by 0, so that
  the second feature of the item stays 1; with the residual masked at the missing positions
  only, that feature becomes not-a-number.
\<close>

theorem nan_masking_counterexample:
  "compatible ex_nan_feature \<and> \<not> isnan (el (arr_y ex_nan_feature) 0 0) \<and>
   gradient_descent ex_nan_feature 1 (Num 1) (Num 0) =
     Return (arr [[NaN, Num 1]], arr [[NaN, Num 1]])
       (ex_nan_feature\<lparr>arr_x := arr [[NaN, Num 1]]\<rparr>) \<and>
   arr_x (y_masked_step (Num 1) (Num 0) ex_nan_feature) = arr [[NaN, NaN]]"
  by (simp add: ex_nan_feature_def compatible_def y_masked_step_def y_masked_residual_def
      recon_def eval_defs)

text \<open>
  C1, amended. On arrays of compatible shapes, \<open>gradient_descent\<close> returns the state reached
  by \<open>max_iter\<close> steps, each of which takes the residual of \<open>theta @ x.T - y\<close>, replaces its
  not-a-number entries by 0, and from it and the \<open>theta\<close> and \<open>x\<close> of the start of the step
  computes both gradients, then subtracts \<open>alpha\<close> times each. The entries replaced by 0
  include every position where \<open>y\<close> is missing, and in a step whose reconstruction
  \<open>theta @ x.T\<close> has no not-a-number entry they are exactly those positions.
\<close>

theorem gradient_descent_steps:
  assumes "rect_env s" and "compatible s"
  shows "gradient_descent s max_iter alpha beta =
           Return (arr_theta ((spec_step alpha beta ^^ nat max_iter) s),
                   arr_x ((spec_step alpha beta ^^ nat max_iter) s))
                  ((spec_step alpha beta ^^ nat max_iter) s)
         \<and> (\<forall>t i j. isnan (el (arr_y t) i j) \<longrightarrow> spec_residual t i j = Num 0)
         \<and> (\<forall>t. rect_env t \<and> compatible t \<and>
                 (\<forall>i<nrows (arr_theta t). \<forall>j<nrows (arr_x t). \<not> isnan (recon t i j))
               \<longrightarrow> spec_step alpha beta t = y_masked_step alpha beta t)"
  using gradient_descent_ok [OF assms] spec_residual_missing spec_step_y_masked
  by blast

theorem gradient_descent_steps_witness:
  "rect_env ex_env \<and> compatible ex_env \<and>
   gradient_descent ex_env 1 (Num 1) (Num 0) =
     Return (arr [[Num 2], [Num (-2)]], arr [[Num 0], [Num 1]])
       (ex_env\<lparr>arr_x := arr [[Num 0], [Num 1]], arr_theta := arr [[Num 2], [Num (-2)]]\<rparr>) \<and>
   isnan (el (arr_y ex_env) 0 1) \<and> spec_residual ex_env 0 1 = Num 0 \<and>
   y_masked_step (Num 1) (Num 0) ex_env =
     ex_env\<lparr>arr_x := arr [[Num 0], [Num 1]], arr_theta := arr [[Num 2], [Num (-2)]]\<rparr>"
proof -
  have m: "isnan (el (arr_y ex_env) 0 1)"
    by (simp add: ex_env_def arr_def el_def)
  have n: "\<forall>i<nrows (arr_theta ex_env). \<forall>j<nrows (arr_x ex_env). \<not> isnan (recon ex_env i j)"
    by (simp add: ex_env_def recon_def el_def nrows_def arr_def All_less_Suc)
  from gradient_descent_steps [of ex_env 1 "Num 1" "Num 0"] ex_env_ok
  have g: "gradient_descent ex_env 1 (Num 1) (Num 0) =
          Return (arr_theta (spec_step (Num 1) (Num 0) ex_env),
                  arr_x (spec_step (Num 1) (Num 0) ex_env))
                 (spec_step (Num 1) (Num 0) ex_env)"
    and z: "\<forall>t i j. isnan (el (arr_y t) i j) \<longrightarrow> spec_residual t i j = Num 0"
    and y: "\<forall>t. rect_env t \<and> compatible t \<and>
                 (\<forall>i<nrows (arr_theta t). \<forall>j<nrows (arr_x t). \<not> isnan (recon t i j))
               \<longrightarrow> spec_step (Num 1) (Num 0) t = y_masked_step (Num 1) (Num 0) t"
    by simp_all
  from z m have r: "spec_residual ex_env 0 1 = Num 0"
    by blast
  from y ex_env_ok n
  have eq: "spec_step (Num 1) (Num 0) ex_env = y_masked_step (Num 1) (Num 0) ex_env"
    by blast
  have ys: "y_masked_step (Num 1) (Num 0) ex_env =
     ex_env\<lparr>arr_x := arr [[Num 0], [Num 1]], arr_theta := arr [[Num 2], [Num (-2)]]\<rparr>"
    unfolding eq [symmetric] by (rule ex_step)
  from g have "gradient_descent ex_env 1 (Num 1) (Num 0) =
     Return (arr [[Num 2], [Num (-2)]], arr [[Num 0], [Num 1]])
       (ex_env\<lparr>arr_x := arr [[Num 0], [Num 1]], arr_theta := arr [[Num 2], [Num (-2)]]\<rparr>)"
    by (simp add: ex_step)
  with ex_env_ok m r ys show ?thesis
    by blast
qed

text \<open>
  C2 (the claim fails as stated: nothing checks the shapes, a \<open>y\<close> with a single row is
  broadcast). With two users, one item and a \<open>y\<close> of one row, \<open>theta\<close> and \<open>y\<close> differ
  in their number of rows, yet \<open>cost\<close> returns a value and \<open>gradient_descent\<close> runs its step
  and updates both arrays.
\<close>

theorem shape_mismatch_counterexample:
  "nrows (arr_theta ex_broadcast) \<noteq> nrows (arr_y ex_broadcast) \<and>
   cost ex_broadcast = Return (Num (1/2)) ex_broadcast \<and>
   gradient_descent ex_broadcast 1 (Num 1) (Num 0) =
     Return (arr [[Num 1], [Num 1]], arr [[Num (-1)]])
       (ex_broadcast\<lparr>arr_x := arr [[Num (-1)]], arr_theta := arr [[Num 1], [Num 1]]\<rparr>)"
  by (simp add: ex_broadcast_def eval_defs)

text \<open>
  C2, amended. \<open>cost\<close> raises ValueError, with the arrays as they were, when the feature
  dimensions differ or when a dimension of \<open>y\<close> differs from that of \<open>theta @ x.T\<close> and
  neither is 1. \<open>gradient_descent\<close> with a positive \<open>max_iter\<close> raises ValueError in its
  first step, with the arrays as they were, when the feature dimensions differ or when a
  dimension of \<open>y\<close> is neither that of \<open>theta @ x.T\<close> nor 1. With \<open>max_iter\<close> at most 0
  it returns the arrays as they were, whatever their shapes.
\<close>

theorem shape_errors:
  "((ncols (arr_theta s) \<noteq> ncols (arr_x s)
      \<or> (nrows (arr_theta s) \<noteq> nrows (arr_y s) \<and> nrows (arr_theta s) \<noteq> 1 \<and> nrows (arr_y s) \<noteq> 1)
      \<or> (nrows (arr_x s) \<noteq> ncols (arr_y s) \<and> nrows (arr_x s) \<noteq> 1 \<and> ncols (arr_y s) \<noteq> 1))
     \<longrightarrow> cost s = Raise ValueError s) \<and>
   (0 < max_iter \<and>
     (ncols (arr_theta s) \<noteq> ncols (arr_x s)
      \<or> (nrows (arr_y s) \<noteq> nrows (arr_theta s) \<and> nrows (arr_y s) \<noteq> 1)
      \<or> (ncols (arr_y s) \<noteq> nrows (arr_x s) \<and> ncols (arr_y s) \<noteq> 1))
     \<longrightarrow> gradient_descent s max_iter alpha beta = Raise ValueError s) \<and>
   (max_iter \<le> 0 \<longrightarrow> gradient_descent s max_iter alpha beta = Return (arr_theta s, arr_x s) s)"
proof (intro conjI impI)
  assume "ncols (arr_theta s) \<noteq> ncols (arr_x s)
      \<or> (nrows (arr_theta s) \<noteq> nrows (arr_y s) \<and> nrows (arr_theta s) \<noteq> 1 \<and> nrows (arr_y s) \<noteq> 1)
      \<or> (nrows (arr_x s) \<noteq> ncols (arr_y s) \<and> nrows (arr_x s) \<noteq> 1 \<and> ncols (arr_y s) \<noteq> 1)"
  then show "cost s = Raise ValueError s"
    by (simp add: cost_def residual_shape_error)
next
  assume a: "0 < max_iter \<and>
     (ncols (arr_theta s) \<noteq> ncols (arr_x s)
      \<or> (nrows (arr_y s) \<noteq> nrows (arr_theta s) \<and> nrows (arr_y s) \<noteq> 1)
      \<or> (ncols (arr_y s) \<noteq> nrows (arr_x s) \<and> ncols (arr_y s) \<noteq> 1))"
  then obtain n where n: "nat max_iter = Suc n"
    by (cases "nat max_iter") auto
  from a show "gradient_descent s max_iter alpha beta = Raise ValueError s"
    by (simp add: gradient_descent_def n gd_step_shape_error)
next
  assume "max_iter \<le> 0"
  then show "gradient_descent s max_iter alpha beta = Return (arr_theta s, arr_x s) s"
    by (simp add: gradient_descent_def)
qed

theorem shape_errors_witness:
  "ncols (arr_theta ex_mismatch) \<noteq> ncols (arr_x ex_mismatch) \<and>
   cost ex_mismatch = Raise ValueError ex_mismatch \<and>
   gradient_descent ex_mismatch 1 (Num 1) (Num 0) = Raise ValueError ex_mismatch \<and>
   gradient_descent ex_mismatch 0 (Num 1) (Num 0) =
     Return (arr [[Num 1, Num 2]], arr [[Num 1]]) ex_mismatch"
proof -
  have sh: "ncols (arr_theta ex_mismatch) \<noteq> ncols (arr_x ex_mismatch)"
    by (simp add: ex_mismatch_def arr_def)
  have ar: "arr_theta ex_mismatch = arr [[Num 1, Num 2]]" "arr_x ex_mismatch = arr [[Num 1]]"
    by (simp_all add: ex_mismatch_def)
  from sh shape_errors [of ex_mismatch 1 "Num 1" "Num 0"] shape_errors [of ex_mismatch 0 "Num 1" "Num 0"]
  show ?thesis by (simp add: ar)
qed

text \<open>
  C3 (the claim fails as stated: the configuration is never checked). With \<open>max_iter = -5\<close>
  and \<open>alpha = -0.1\<close> the call returns the arrays as they were; with \<open>alpha = -1\<close> and
  \<open>beta = -1\<close> it runs its step and updates both arrays.
\<close>

theorem invalid_config_counterexample:
  "gradient_descent ex_env (-5) (Num (-1/10)) (Num 0) = Return (arr_theta ex_env, arr_x ex_env) ex_env \<and>
   gradient_descent ex_env 1 (Num (-1)) (Num (-1)) =
     Return (arr [[Num (-1)], [Num 4]], arr [[Num 1], [Num 2]])
       (ex_env\<lparr>arr_x := arr [[Num 1], [Num 2]], arr_theta := arr [[Num (-1)], [Num 4]]\<rparr>)"
  by (simp add: ex_env_def eval_defs)

text \<open>
  C3, amended. Whatever \<open>alpha\<close> and \<open>beta\<close> are, \<open>gradient_descent\<close> with \<open>max_iter\<close> at
  most 0 returns the arrays as they were, and on arrays of compatible shapes it returns
  the state reached by \<open>max_iter\<close> steps taken with that \<open>alpha\<close> and \<open>beta\<close>; it never
  raises for the configuration.
\<close>

theorem no_config_check:
  "(max_iter \<le> 0 \<longrightarrow> gradient_descent s max_iter alpha beta = Return (arr_theta s, arr_x s) s) \<and>
   (rect_env s \<and> compatible s \<longrightarrow>
      (\<exists>s'. gradient_descent s max_iter alpha beta = Return (arr_theta s', arr_x s') s' \<and>
            s' = (spec_step alpha beta ^^ nat max_iter) s))"
  by (simp add: gradient_descent_ok) (simp add: gradient_descent_def)

theorem no_config_check_witness:
  "(-5::int) \<le> 0 \<and> rect_env ex_env \<and> compatible ex_env \<and>
   gradient_descent ex_env (-5) (Num (-1/10)) (Num (-1)) = Return (arr_theta ex_env, arr_x ex_env) ex_env"
  using no_config_check [of "-5" ex_env "Num (-1/10)" "Num (-1)"] ex_env_ok
  by simp

text \<open>
  C4 (the claim fails as stated: also a not-a-number entry of the residual at an observed
  position is replaced by 0, and the sum can overflow). With a not-a-number in \<open>theta\<close> and
  the rating observed, \<open>cost\<close> returns 0, while half the sum of squares of the residual
  masked at the missing positions of \<open>y\<close> is not a number. With finite entries whose product
  overflows, \<open>cost\<close> returns plus infinity, which is no real number.
\<close>

theorem cost_counterexample:
  "compatible ex_nan_theta \<and> cost ex_nan_theta = Return (Num 0) ex_nan_theta \<and>
   spec_cost ex_nan_theta = NaN \<and>
   compatible ex_overflow \<and> all_fin (arr_theta ex_overflow) \<and> all_fin (arr_x ex_overflow) \<and>
   cost ex_overflow = Return PInf ex_overflow"
proof -
  have "compatible ex_nan_theta \<and> cost ex_nan_theta = Return (Num 0) ex_nan_theta \<and>
        spec_cost ex_nan_theta = NaN"
    by (simp add: ex_nan_theta_def compatible_def spec_cost_def recon_def eval_defs)
  moreover have "compatible ex_overflow \<and> all_fin (arr_theta ex_overflow) \<and>
        all_fin (arr_x ex_overflow)"
    by (simp add: ex_overflow_def compatible_def all_fin_def arr_def nrows_def
        overflow_threshold_def)
  moreover have "cost ex_overflow = Return PInf ex_overflow"
    by (simp add: ex_overflow_def eval_defs ovf_def overflow_threshold_def)
  ultimately show ?thesis by simp
qed

text \<open>
  C4, amended. On arrays of compatible shapes \<open>cost\<close> returns a single value that is
  neither not-a-number nor negative: a real number that is at least 0, or plus infinity
  when a product or a sum overflows. It has no term in \<open>beta\<close>. Whenever the reconstruction
  \<open>theta @ x.T\<close> has no not-a-number entry, the value is half the sum of squares of the
  residual with the entries at the missing positions of \<open>y\<close> replaced by 0.
\<close>

theorem cost_value:
  assumes "rect_env s" and "compatible s"
  shows "\<exists>c. cost s = Return c s \<and> nonneg c \<and>
           ((\<forall>i<nrows (arr_theta s). \<forall>j<nrows (arr_x s). \<not> isnan (recon s i j))
              \<longrightarrow> spec_cost s = c)"
proof -
  let ?sq = "\<lambda>i j. fmul (spec_residual s i j) (spec_residual s i j)"
  let ?row = "\<lambda>i. fsum (map (?sq i) [0..<nrows (arr_x s)])"
  let ?tot = "fsum (map ?row [0..<nrows (arr_theta s)])"
  have sq: "nonneg (?sq i j)" for i j
    by (rule nonneg_square) (rule spec_residual_not_nan)
  have row: "nonneg (?row i)" for i
    by (rule nonneg_fsum) (use sq in auto)
  have "nonneg ?tot"
    by (rule nonneg_fsum) (use row in auto)
  then have nn: "nonneg (fmul (Num (1/2)) ?tot)"
    by (rule nonneg_half)
  have c: "cost s = Return (fmul (Num (1/2)) ?tot) s"
    by (rule cost_ok [OF assms(2)])
  have "spec_cost s = fmul (Num (1/2)) ?tot"
    if "\<forall>i<nrows (arr_theta s). \<forall>j<nrows (arr_x s). \<not> isnan (recon s i j)"
  proof -
    have e: "(let r = (if isnan (el (arr_y s) i j) then Num 0
                       else fsub (recon s i j) (el (arr_y s) i j)) in fmul r r) = ?sq i j"
      if "i < nrows (arr_theta s)" "j < nrows (arr_x s)" for i j
      using spec_residual_y_masked [OF assms that] \<open>\<forall>i<nrows (arr_theta s). \<forall>j<nrows (arr_x s). \<not> isnan (recon s i j)\<close> that
      by (simp add: y_masked_residual_def Let_def)
    show ?thesis
      unfolding spec_cost_def
      by (intro arg_cong [where f = "fmul (Num (1/2))"] fsum_cong e)
  qed
  with c nn show ?thesis by blast
qed

theorem cost_value_witness:
  "rect_env ex_env \<and> compatible ex_env \<and>
   cost ex_env = Return (Num (3/2)) ex_env \<and> spec_cost ex_env = Num (3/2)"
proof -
  have c: "cost ex_env = Return (Num (3/2)) ex_env"
    by (simp add: ex_env_def eval_defs)
  have n: "\<forall>i<nrows (arr_theta ex_env). \<forall>j<nrows (arr_x ex_env). \<not> isnan (recon ex_env i j)"
    by (simp add: ex_env_def recon_def el_def nrows_def arr_def All_less_Suc)
  from cost_value [of ex_env] ex_env_ok c n show ?thesis
    by auto
qed

text \<open>
  C5 (the claim fails as stated: 0 times not-a-number and 0 times infinity are
  not-a-number). With a not-a-number in \<open>theta\<close>, one step with \<open>alpha = 0\<close> and \<open>beta = 0\<close>
  turns the entry 1 of \<open>x\<close> into not-a-number. With finite entries whose product overflows,
  the gradients are infinite and the same step turns both arrays into not-a-number.
\<close>

theorem zero_rate_counterexample:
  "compatible ex_nan_theta \<and> arr_x ex_nan_theta = arr [[Num 1]] \<and>
   gradient_descent ex_nan_theta 1 (Num 0) (Num 0) =
     Return (arr [[NaN]], arr [[NaN]]) (ex_nan_theta\<lparr>arr_x := arr [[NaN]]\<rparr>) \<and>
   compatible ex_overflow \<and> all_fin (arr_theta ex_overflow) \<and> all_fin (arr_x ex_overflow) \<and>
   gradient_descent ex_overflow 1 (Num 0) (Num 0) =
     Return (arr [[NaN]], arr [[NaN]])
       (ex_overflow\<lparr>arr_x := arr [[NaN]], arr_theta := arr [[NaN]]\<rparr>)"
proof -
  have "compatible ex_nan_theta \<and> arr_x ex_nan_theta = arr [[Num 1]] \<and>
   gradient_descent ex_nan_theta 1 (Num 0) (Num 0) =
     Return (arr [[NaN]], arr [[NaN]]) (ex_nan_theta\<lparr>arr_x := arr [[NaN]]\<rparr>)"
    by (simp add: ex_nan_theta_def compatible_def eval_defs)
  moreover have "compatible ex_overflow \<and> all_fin (arr_theta ex_overflow) \<and>
        all_fin (arr_x ex_overflow)"
    by (simp add: ex_overflow_def compatible_def all_fin_def arr_def nrows_def
        overflow_threshold_def)
  moreover have "gradient_descent ex_overflow 1 (Num 0) (Num 0) =
     Return (arr [[NaN]], arr [[NaN]])
       (ex_overflow\<lparr>arr_x := arr [[NaN]], arr_theta := arr [[NaN]]\<rparr>)"
    by (simp add: ex_overflow_def eval_defs ovf_def overflow_threshold_def)
  ultimately show ?thesis by simp
qed

text \<open>
  C5, amended. On arrays of compatible shapes where every entry of \<open>theta\<close> and \<open>x\<close> is
  finite and every entry of the two gradients of the step is finite (nothing overflows),
  \<open>gradient_descent\<close> with \<open>alpha = 0\<close> and \<open>beta = 0\<close> returns \<open>theta\<close> and \<open>x\<close> as they
  were, for every \<open>max_iter\<close>.
\<close>

theorem zero_rate_no_op:
  assumes "rect_env s" and "compatible s"
    and "all_fin (arr_theta s)" and "all_fin (arr_x s)"
    and "\<forall>j<nrows (arr_x s). \<forall>f<ncols (arr_x s). finite_fl (grad_x (Num 0) s j f)"
    and "\<forall>i<nrows (arr_theta s). \<forall>f<ncols (arr_theta s). finite_fl (grad_theta (Num 0) s i f)"
  shows "gradient_descent s max_iter (Num 0) (Num 0) = Return (arr_theta s, arr_x s) s"
proof -
  have "(spec_step (Num 0) (Num 0) ^^ n) s = s" for n
    by (induction n) (simp_all add: spec_step_zero_rate [OF assms(1,3-6)])
  then show ?thesis
    by (simp add: gradient_descent_ok [OF assms(1,2)])
qed

theorem zero_rate_no_op_witness:
  "rect_env ex_env \<and> compatible ex_env \<and> all_fin (arr_theta ex_env) \<and> all_fin (arr_x ex_env) \<and>
   grad_x (Num 0) ex_env 0 0 = Num 1 \<and> grad_x (Num 0) ex_env 1 0 = Num 2 \<and>
   grad_theta (Num 0) ex_env 0 0 = Num (-1) \<and> grad_theta (Num 0) ex_env 1 0 = Num 4 \<and>
   gradient_descent ex_env 7 (Num 0) (Num 0) = Return (arr [[Num 1], [Num 2]], arr [[Num 1], [Num 3]]) ex_env"
proof -
  have a: "all_fin (arr_theta ex_env)" "all_fin (arr_x ex_env)"
    using threshold_big by (simp_all add: ex_env_def all_fin_def arr_def)
  have ar: "arr_theta ex_env = arr [[Num 1], [Num 2]]" "arr_x ex_env = arr [[Num 1], [Num 3]]"
    by (simp_all add: ex_env_def)
  have g: "grad_x (Num 0) ex_env 0 0 = Num 1" "grad_x (Num 0) ex_env 1 0 = Num 2"
    "grad_theta (Num 0) ex_env 0 0 = Num (-1)" "grad_theta (Num 0) ex_env 1 0 = Num 4"
    by (simp_all add: grad_x_def grad_theta_def spec_residual_def recon_def ex_env_def
        arr_def el_def nrows_def fsub_def Let_def)
  have sh: "nrows (arr_x ex_env) = 2" "ncols (arr_x ex_env) = 1"
    "nrows (arr_theta ex_env) = 2" "ncols (arr_theta ex_env) = 1"
    by (simp_all add: ex_env_def arr_def nrows_def)
  have gx: "\<forall>j<nrows (arr_x ex_env). \<forall>f<ncols (arr_x ex_env). finite_fl (grad_x (Num 0) ex_env j f)"
    and gt: "\<forall>i<nrows (arr_theta ex_env). \<forall>f<ncols (arr_theta ex_env).
               finite_fl (grad_theta (Num 0) ex_env i f)"
    using threshold_big unfolding sh by (simp_all add: All_less_Suc numeral_2_eq_2 g [simplified])
  from zero_rate_no_op [of ex_env 7] ex_env_ok a gx gt g show ?thesis
    by (simp add: ar)
qed

text \<open>
  C6 (the claim fails as stated: 0 times not-a-number and 0 times infinity are
  not-a-number). With the only rating missing and a not-a-number in \<open>x\<close>, one step with
  \<open>beta = 0\<close> turns the user's parameter 1 into not-a-number; with an infinity in \<open>x\<close>
  instead, it does so too.
\<close>

theorem unrated_user_row_counterexample:
  "compatible ex_nan_x \<and> isnan (el (arr_y ex_nan_x) 0 0) \<and>
   rows (arr_theta ex_nan_x) ! 0 = [Num 1] \<and>
   gradient_descent ex_nan_x 1 (Num 1) (Num 0) =
     Return (arr [[NaN]], arr [[NaN]]) (ex_nan_x\<lparr>arr_theta := arr [[NaN]]\<rparr>) \<and>
   compatible ex_inf_x \<and> isnan (el (arr_y ex_inf_x) 0 0) \<and>
   rows (arr_theta ex_inf_x) ! 0 = [Num 1] \<and>
   gradient_descent ex_inf_x 1 (Num 1) (Num 0) =
     Return (arr [[NaN]], arr [[NaN]])
       (ex_inf_x\<lparr>arr_x := arr [[NaN]], arr_theta := arr [[NaN]]\<rparr>)"
  by (simp add: ex_nan_x_def ex_inf_x_def compatible_def eval_defs)

text \<open>
  C6, amended. On arrays of compatible shapes where every entry of \<open>theta\<close> and \<open>x\<close> is
  finite (neither not-a-number nor infinite), with \<open>beta = 0\<close> and a finite \<open>alpha\<close>, for a
  user \<open>u\<close> whose ratings are all missing: one step leaves row \<open>u\<close> of \<open>theta\<close> as it was;
  row \<open>u\<close> of the masked residual is 0, so its term in the sum of \<open>cost\<close> is 0; and
  replacing row \<open>u\<close> of \<open>theta\<close> by any other finite numbers changes neither the cost, nor
  the \<open>x\<close> the step produces, nor the rows of the other users in the \<open>theta\<close> it produces.
\<close>

theorem unrated_user_row:
  assumes "rect_env s" and "compatible s"
    and "all_fin (arr_theta s)" and "all_fin (arr_x s)"
    and "u < nrows (arr_y s)"
    and "\<forall>j<ncols (arr_y s). isnan (el (arr_y s) u j)"
  shows "\<exists>s' R c.
     gradient_descent s 1 (Num a) (Num 0) = Return (arr_theta s', arr_x s') s' \<and>
     rows (arr_theta s') ! u = rows (arr_theta s) ! u \<and>
     residual s = Inr R \<and>
     (\<forall>j<ncols (arr_y s). el R u j = Num 0) \<and>
     fsum (map (\<lambda>v. fmul v v) (rows R ! u)) = Num 0 \<and>
     cost s = Return c s \<and>
     (\<forall>r. length r = ncols (arr_theta s) \<and> list_all finite_fl r \<longrightarrow>
        (\<exists>t'. gradient_descent (s\<lparr>arr_theta := set_row (arr_theta s) u r\<rparr>) 1 (Num a) (Num 0)
                = Return (arr_theta t', arr_x t') t' \<and>
              arr_x t' = arr_x s' \<and>
              (\<forall>i<nrows (arr_theta s). i \<noteq> u \<longrightarrow> rows (arr_theta t') ! i = rows (arr_theta s') ! i) \<and>
              cost (s\<lparr>arr_theta := set_row (arr_theta s) u r\<rparr>)
                = Return c (s\<lparr>arr_theta := set_row (arr_theta s) u r\<rparr>)))"
proof -
  let ?n = "nrows (arr_theta s)" and ?m = "nrows (arr_x s)" and ?k = "ncols (arr_theta s)"
  let ?s' = "spec_step (Num a) (Num 0) s"
  let ?R = "tabulate ?n ?m (spec_residual s)"
  let ?tot = "\<lambda>t. fmul (Num (1/2))
           (fsum (map (\<lambda>i. fsum (map (\<lambda>j. fmul (spec_residual t i j) (spec_residual t i j))
                                     [0..<nrows (arr_x t)])) [0..<nrows (arr_theta t)]))"
  have sh: "?n = nrows (arr_y s)" "?m = ncols (arr_y s)" "?k = ncols (arr_x s)"
    using assms(2) by (simp_all add: compatible_def)
  have u: "u < ?n" using assms(5) sh by simp
  have rt: "rect (arr_theta s)" and rx: "rect (arr_x s)"
    using assms(1) by (simp_all add: rect_env_def)
  have th: "finite_fl (el (arr_theta s) i f)" if "i < ?n" "f < ?k" for i f
    using all_fin_el [OF assms(3) rt that] .
  have x: "finite_fl (el (arr_x s) j f)" if "j < ?m" "f < ?k" for j f
    using all_fin_el [OF assms(4) rx that(1)] that(2) sh by simp
  have R0: "spec_residual s u j = Num 0" if "j < ?m" for j
    using assms(6) that sh by (simp add: spec_residual_missing)
  have gd: "gradient_descent s 1 (Num a) (Num 0) = Return (arr_theta ?s', arr_x ?s') ?s'"
    using gradient_descent_ok [OF assms(1,2), of 1 "Num a" "Num 0"] by simp
  have keep: "rows (arr_theta ?s') ! u = rows (arr_theta s) ! u"
  proof -
    have "fsub (el (arr_theta s) u f)
             (fmul (Num a)
                (fadd (fsum (map (\<lambda>j. fmul (spec_residual s u j) (el (arr_x s) j f)) [0..<?m]))
                      (fmul (Num 0) (el (arr_theta s) u f)))) = el (arr_theta s) u f"
      if f: "f < ?k" for f
    proof -
      have "fsum (map (\<lambda>j. fmul (spec_residual s u j) (el (arr_x s) j f)) [0..<?m]) = Num 0"
      proof (rule fsum_zero)
        fix j assume j: "j < ?m"
        show "fmul (spec_residual s u j) (el (arr_x s) j f) = Num 0"
          by (simp add: R0 [OF j] fmul_zero_finite [OF x [OF j f]])
      qed
      then show ?thesis
        by (simp add: fmul_zero_finite [OF th [OF u f]] fsub_zero [OF th [OF u f]])
    qed
    then have "rows (arr_theta ?s') ! u = map (el (arr_theta s) u) [0..<?k]"
      using u by (simp add: spec_step_def row_tabulate)
    then show ?thesis
      by (simp add: row_rect [OF rt u])
  qed
  have res: "residual s = Inr ?R"
    by (rule residual_ok [OF assms(2)])
  have Rz: "\<forall>j<ncols (arr_y s). el ?R u j = Num 0"
    using u R0 sh by simp
  have Rsum: "fsum (map (\<lambda>v. fmul v v) (rows ?R ! u)) = Num 0"
  proof -
    have "fsum (map (\<lambda>j. fmul (spec_residual s u j) (spec_residual s u j)) [0..<?m]) = Num 0"
      by (rule fsum_zero) (simp add: R0)
    then show ?thesis
      using u by (simp add: row_tabulate comp_def)
  qed
  have cs: "cost s = Return (?tot s) s"
    by (rule cost_ok [OF assms(2)])
  have other: "\<exists>t'. gradient_descent (s\<lparr>arr_theta := set_row (arr_theta s) u r\<rparr>) 1 (Num a) (Num 0)
                = Return (arr_theta t', arr_x t') t' \<and>
              arr_x t' = arr_x ?s' \<and>
              (\<forall>i<?n. i \<noteq> u \<longrightarrow> rows (arr_theta t') ! i = rows (arr_theta ?s') ! i) \<and>
              cost (s\<lparr>arr_theta := set_row (arr_theta s) u r\<rparr>)
                = Return (?tot s) (s\<lparr>arr_theta := set_row (arr_theta s) u r\<rparr>)"
    if len: "length r = ?k" and num: "list_all finite_fl r" for r
  proof -
    let ?t = "s\<lparr>arr_theta := set_row (arr_theta s) u r\<rparr>"
    let ?t' = "spec_step (Num a) (Num 0) ?t"
    have rect_t: "rect_env ?t"
      using assms(1) len by (simp add: rect_env_def rect_set_row)
    have comp_t: "compatible ?t"
      using assms(2) by (simp add: compatible_def)
    have sr: "spec_residual ?t i j = spec_residual s i j" if "j < ?m" for i j
      using assms(6) that sh by (intro spec_residual_set_row u) simp
    have rnum: "finite_fl (r ! f)" if "f < ?k" for f
      using num len that by (simp add: list_all_length)
    have gdt: "gradient_descent ?t 1 (Num a) (Num 0) = Return (arr_theta ?t', arr_x ?t') ?t'"
      using gradient_descent_ok [OF rect_t comp_t, of 1 "Num a" "Num 0"] by simp
    have xeq: "arr_x ?t' = arr_x ?s'"
      unfolding spec_step_def
    proof (simp, rule tabulate_cong)
      fix j f assume j: "j < ?m" and f: "f < ncols (arr_x s)"
      have "fsum (map (\<lambda>i. fmul (spec_residual ?t i j) (el (set_row (arr_theta s) u r) i f)) [0..<?n])
          = fsum (map (\<lambda>i. fmul (spec_residual s i j) (el (arr_theta s) i f)) [0..<?n])"
      proof (rule fsum_cong)
        fix i assume i: "i < ?n"
        show "fmul (spec_residual ?t i j) (el (set_row (arr_theta s) u r) i f)
            = fmul (spec_residual s i j) (el (arr_theta s) i f)"
        proof (cases "i = u")
          case True
          have b: "fmul (Num 0) (r ! f) = Num 0"
            using rnum f sh by (simp add: fmul_zero_finite)
          have c: "fmul (Num 0) (el (arr_theta s) u f) = Num 0"
            using th [OF u] f sh by (simp add: fmul_zero_finite)
          show ?thesis
            using True by (simp add: sr [OF j] R0 [OF j] el_set_row_same [OF u] b c)
        next
          case False
          then show ?thesis
            by (simp add: sr [OF j] el_set_row_other)
        qed
      qed
      then show "fsub (el (arr_x s) j f)
            (fmul (Num a)
              (fadd (fsum (map (\<lambda>i. fmul (spec_residual ?t i j) (el (set_row (arr_theta s) u r) i f)) [0..<?n]))
                (fmul (Num 0) (el (arr_x s) j f))))
          = fsub (el (arr_x s) j f)
            (fmul (Num a)
              (fadd (fsum (map (\<lambda>i. fmul (spec_residual s i j) (el (arr_theta s) i f)) [0..<?n]))
                (fmul (Num 0) (el (arr_x s) j f))))"
        by simp
    qed
    have rows_eq: "rows (arr_theta ?t') ! i = rows (arr_theta ?s') ! i" if i: "i < ?n" "i \<noteq> u" for i
    proof -
      have "fsum (map (\<lambda>j. fmul (spec_residual ?t i j) (el (arr_x s) j f)) [0..<?m])
          = fsum (map (\<lambda>j. fmul (spec_residual s i j) (el (arr_x s) j f)) [0..<?m])" for f
        by (rule fsum_cong) (simp add: sr)
      then show ?thesis
        using i by (simp add: spec_step_def row_tabulate el_set_row_other)
    qed
    have "fsum (map (\<lambda>j. fmul (spec_residual ?t i j) (spec_residual ?t i j)) [0..<?m])
        = fsum (map (\<lambda>j. fmul (spec_residual s i j) (spec_residual s i j)) [0..<?m])" for i
      by (rule fsum_cong) (simp add: sr)
    then have "?tot ?t = ?tot s"
      by simp
    then have ct: "cost ?t = Return (?tot s) ?t"
      using cost_ok [OF comp_t] by simp
    from gdt xeq rows_eq ct show ?thesis by blast
  qed
  show ?thesis
    apply (rule exI [of _ ?s'], rule exI [of _ ?R], rule exI [of _ "?tot s"])
    apply (intro conjI)
          apply (rule gd)
         apply (rule keep)
        apply (rule res)
       apply (rule Rz)
      apply (rule Rsum)
     apply (rule cs)
    apply (use other sh in blast)
    done
qed

theorem unrated_user_row_witness:
  "rect_env ex_missing_row \<and> compatible ex_missing_row \<and>
   all_fin (arr_theta ex_missing_row) \<and> all_fin (arr_x ex_missing_row) \<and>
   1 < nrows (arr_y ex_missing_row) \<and>
   isnan (el (arr_y ex_missing_row) 1 0) \<and> isnan (el (arr_y ex_missing_row) 1 1) \<and>
   length [Num 7] = ncols (arr_theta ex_missing_row) \<and> list_all finite_fl [Num 7] \<and>
   gradient_descent ex_missing_row 1 (Num 1) (Num 0) =
     Return (arr [[Num 5], [Num 2]], arr [[Num 2], [Num 4]])
       (ex_missing_row\<lparr>arr_x := arr [[Num 2], [Num 4]], arr_theta := arr [[Num 5], [Num 2]]\<rparr>) \<and>
   (\<exists>t'. gradient_descent (ex_missing_row\<lparr>arr_theta := set_row (arr_theta ex_missing_row) 1 [Num 7]\<rparr>)
            1 (Num 1) (Num 0) = Return (arr_theta t', arr_x t') t' \<and>
         arr_x t' = arr [[Num 2], [Num 4]] \<and> rows (arr_theta t') ! 0 = [Num 5])"
proof -
  have h: "rect_env ex_missing_row" "compatible ex_missing_row"
    "all_fin (arr_theta ex_missing_row)" "all_fin (arr_x ex_missing_row)"
    "1 < nrows (arr_y ex_missing_row)"
    "\<forall>j<ncols (arr_y ex_missing_row). isnan (el (arr_y ex_missing_row) 1 j)"
    using threshold_big
    by (simp_all add: ex_missing_row_def rect_env_def compatible_def rect_def no_inf_def
        all_fin_def arr_def nrows_def el_def All_less_Suc)
  have r: "length [Num 7] = ncols (arr_theta ex_missing_row)" "list_all finite_fl [Num 7]"
    using threshold_big by (simp_all add: ex_missing_row_def arr_def)
  have g: "gradient_descent ex_missing_row 1 (Num 1) (Num 0) =
     Return (arr [[Num 5], [Num 2]], arr [[Num 2], [Num 4]])
       (ex_missing_row\<lparr>arr_x := arr [[Num 2], [Num 4]], arr_theta := arr [[Num 5], [Num 2]]\<rparr>)"
    by (simp add: ex_missing_row_def eval_defs)
  from unrated_user_row [OF h, of 1] obtain s' where
    s': "gradient_descent ex_missing_row 1 (Num 1) (Num 0) = Return (arr_theta s', arr_x s') s'" and
    o: "\<forall>r. length r = ncols (arr_theta ex_missing_row) \<and> list_all finite_fl r \<longrightarrow>
        (\<exists>t'. gradient_descent (ex_missing_row\<lparr>arr_theta := set_row (arr_theta ex_missing_row) 1 r\<rparr>) 1 (Num 1) (Num 0)
                = Return (arr_theta t', arr_x t') t' \<and>
              arr_x t' = arr_x s' \<and>
              (\<forall>i<nrows (arr_theta ex_missing_row). i \<noteq> 1 \<longrightarrow> rows (arr_theta t') ! i = rows (arr_theta s') ! i))"
    by blast
  from s' g have e: "arr_x s' = arr [[Num 2], [Num 4]]" "rows (arr_theta s') ! 0 = [Num 5]"
    by (auto simp: arr_def)
  have "0 < nrows (arr_theta ex_missing_row)"
    by (simp add: ex_missing_row_def arr_def nrows_def)
  with o r e have "\<exists>t'. gradient_descent (ex_missing_row\<lparr>arr_theta := set_row (arr_theta ex_missing_row) 1 [Num 7]\<rparr>)
            1 (Num 1) (Num 0) = Return (arr_theta t', arr_x t') t' \<and>
         arr_x t' = arr [[Num 2], [Num 4]] \<and> rows (arr_theta t') ! 0 = [Num 5]"
    by (metis zero_neq_one)
  moreover have "isnan (el (arr_y ex_missing_row) 1 0)" "isnan (el (arr_y ex_missing_row) 1 1)"
    by (simp_all add: ex_missing_row_def arr_def el_def)
  ultimately show ?thesis
    using h(1-5) r g by blast
qed

text \<open>
  C7. On arrays of compatible shapes, and for iteration counts \<open>m\<close> and \<open>n\<close> that are not
  negative, running \<open>m\<close> steps and then \<open>n\<close> more on the arrays the first run left behind
  ends in the same arrays as one run of \<open>m + n\<close> steps.
\<close>

theorem gradient_descent_compose:
  assumes "rect_env s" and "compatible s" and "0 \<le> m" and "0 \<le> n"
  shows "\<exists>s1 s2.
           gradient_descent s m alpha beta = Return (arr_theta s1, arr_x s1) s1 \<and>
           gradient_descent s1 n alpha beta = Return (arr_theta s2, arr_x s2) s2 \<and>
           gradient_descent s (m + n) alpha beta = Return (arr_theta s2, arr_x s2) s2"
proof -
  let ?s1 = "(spec_step alpha beta ^^ nat m) s"
  let ?s2 = "(spec_step alpha beta ^^ nat n) ?s1"
  have r1: "rect_env ?s1" and c1: "compatible ?s1"
    using assms by (simp_all add: spec_steps_rect_env spec_steps_compatible)
  have 1: "gd_loop (nat m) alpha beta s = Inr ?s1"
    by (rule gd_loop_ok [OF assms(1,2)])
  have 2: "gd_loop (nat n) alpha beta ?s1 = Inr ?s2"
    by (rule gd_loop_ok [OF r1 c1])
  have "nat (m + n) = nat m + nat n"
    using assms(3,4) by (simp add: nat_add_distrib)
  then have 3: "gd_loop (nat (m + n)) alpha beta s = Inr ?s2"
    by (simp add: gd_loop_add 1 2)
  show ?thesis
    using 1 2 3 by (auto simp: gradient_descent_def)
qed

theorem gradient_descent_compose_witness:
  "rect_env ex_env \<and> compatible ex_env \<and> (0::int) \<le> 1 \<and> (0::int) \<le> 2 \<and>
   (\<exists>s1 s2.
      gradient_descent ex_env 1 (Num 1) (Num 0) = Return (arr_theta s1, arr_x s1) s1 \<and>
      gradient_descent s1 2 (Num 1) (Num 0) = Return (arr_theta s2, arr_x s2) s2 \<and>
      gradient_descent ex_env (1 + 2) (Num 1) (Num 0) = Return (arr_theta s2, arr_x s2) s2)"
  using gradient_descent_compose [of ex_env 1 2 "Num 1" "Num 0"] ex_env_ok
  by simp

text \<open>
  C8. Whatever the arguments, and whether the call returns or raises, \<open>gradient_descent\<close>
  leaves the rating array \<open>y\<close> as it was, and \<open>cost\<close> leaves all three arrays as they were.
\<close>

theorem ratings_never_mutated:
  "arr_y (final_env (gradient_descent s max_iter alpha beta)) = arr_y s \<and>
   final_env (cost s) = s"
proof
  show "arr_y (final_env (gradient_descent s max_iter alpha beta)) = arr_y s"
    using gd_loop_frame [of "nat max_iter" alpha beta s]
    by (simp add: gradient_descent_def split: sum.splits prod.splits)
  show "final_env (cost s) = s"
    by (simp add: cost_def split: sum.splits)
qed

theorem ratings_never_mutated_witness:
  "arr_y (final_env (gradient_descent ex_env 4 (Num 1) (Num 0))) =
     arr [[Num 2, NaN], [Num 1, Num 5]] \<and>
   final_env (cost ex_env) = ex_env"
  using ratings_never_mutated [of ex_env 4 "Num 1" "Num 0"]
  by (simp add: ex_env_def)

text \<open>
  C9. On arrays of compatible shapes, the arrays \<open>gradient_descent\<close> returns are the ones it
  has updated in place, each has the shape it had before, both have the same number of
  columns, and the shapes are still compatible.
\<close>

theorem gradient_descent_shapes:
  assumes "rect_env s" and "compatible s"
  shows "\<exists>theta' x' s'.
           gradient_descent s max_iter alpha beta = Return (theta', x') s' \<and>
           arr_theta s' = theta' \<and> arr_x s' = x' \<and>
           nrows theta' = nrows (arr_theta s) \<and> ncols theta' = ncols (arr_theta s) \<and>
           nrows x' = nrows (arr_x s) \<and> ncols x' = ncols (arr_x s) \<and>
           ncols theta' = ncols x' \<and> rect theta' \<and> rect x' \<and> compatible s'"
proof -
  let ?s' = "(spec_step alpha beta ^^ nat max_iter) s"
  have "gradient_descent s max_iter alpha beta = Return (arr_theta ?s', arr_x ?s') ?s'"
    by (rule gradient_descent_ok [OF assms])
  moreover have "compatible ?s'"
    by (rule spec_steps_compatible [OF assms(2)])
  moreover have "rect_env ?s'"
    by (rule spec_steps_rect_env [OF assms(1)])
  moreover note spec_steps_shapes [where alpha = alpha and beta = beta and n = "nat max_iter" and s = s]
  ultimately show ?thesis
    using assms(2) by (simp add: compatible_def rect_env_def)
qed

theorem gradient_descent_shapes_witness:
  "rect_env ex_env \<and> compatible ex_env \<and>
   (\<exists>theta' x' s'.
      gradient_descent ex_env 3 (Num (1/10)) (Num 2) = Return (theta', x') s' \<and>
      nrows theta' = 2 \<and> ncols theta' = 1 \<and> nrows x' = 2 \<and> ncols x' = 1)"
proof -
  have sh: "nrows (arr_theta ex_env) = 2" "ncols (arr_theta ex_env) = 1"
    "nrows (arr_x ex_env) = 2" "ncols (arr_x ex_env) = 1"
    by (simp_all add: ex_env_def arr_def nrows_def)
  from ex_env_ok gradient_descent_shapes [of ex_env 3 "Num (1/10)" "Num 2"]
  show ?thesis unfolding sh by blast
qed

text \<open>
  C10. On arrays of compatible shapes, with \<open>P\<close> the product \<open>theta @ x.T\<close> and \<open>R\<close> the
  masked residual that \<open>cost\<close> sums and the step of \<open>gradient_descent\<close> uses: an entry of \<open>R\<close>
  is 0 when \<open>P - y\<close> is not-a-number there, and \<open>P - y\<close> otherwise. When \<open>P\<close> has no
  not-a-number entry, the entries replaced by 0 are exactly those at the missing positions
  of \<open>y\<close>. A not-a-number entry of \<open>P\<close> at an observed position is replaced by 0 as well.
\<close>

theorem masking_by_nan_test:
  assumes "rect_env s" and "compatible s"
  shows "\<exists>P R. matmul (arr_theta s) (arr_T (arr_x s)) = Inr P \<and> residual s = Inr R \<and>
           nrows R = nrows (arr_y s) \<and> ncols R = ncols (arr_y s) \<and>
           cost s = Return (fmul (Num (1/2)) (fsum (map (\<lambda>r. fsum (map (\<lambda>v. fmul v v) r)) (rows R)))) s \<and>
           gd_step alpha beta s = Inr (spec_step alpha beta s) \<and>
           (\<forall>i<nrows (arr_y s). \<forall>j<ncols (arr_y s). spec_residual s i j = el R i j) \<and>
           (\<forall>i<nrows (arr_y s). \<forall>j<ncols (arr_y s).
              el R i j = (if isnan (fsub (el P i j) (el (arr_y s) i j)) then Num 0
                          else fsub (el P i j) (el (arr_y s) i j)) \<and>
              (isnan (el P i j) \<and> \<not> isnan (el (arr_y s) i j) \<longrightarrow> el R i j = Num 0)) \<and>
           ((\<forall>i<nrows (arr_y s). \<forall>j<ncols (arr_y s). \<not> isnan (el P i j)) \<longrightarrow>
            (\<forall>i<nrows (arr_y s). \<forall>j<ncols (arr_y s).
               el R i j = (if isnan (el (arr_y s) i j) then Num 0
                           else fsub (el P i j) (el (arr_y s) i j))))"
proof -
  let ?P = "tabulate (nrows (arr_theta s)) (nrows (arr_x s)) (recon s)"
  let ?R = "tabulate (nrows (arr_theta s)) (nrows (arr_x s)) (spec_residual s)"
  have sh: "nrows (arr_theta s) = nrows (arr_y s)" "nrows (arr_x s) = ncols (arr_y s)"
    using assms(2) by (simp_all add: compatible_def)
  have P: "matmul (arr_theta s) (arr_T (arr_x s)) = Inr ?P"
    by (rule matmul_recon [OF assms(2)])
  have R: "residual s = Inr ?R"
    by (rule residual_ok [OF assms(2)])
  have c: "cost s = Return (fmul (Num (1/2)) (fsum (map (\<lambda>r. fsum (map (\<lambda>v. fmul v v) r)) (rows ?R)))) s"
    by (simp add: cost_def R)
  have e: "el ?R i j = (if isnan (fsub (el ?P i j) (el (arr_y s) i j)) then Num 0
                          else fsub (el ?P i j) (el (arr_y s) i j))"
    if "i < nrows (arr_y s)" "j < ncols (arr_y s)" for i j
    using that by (simp add: sh spec_residual_def Let_def)
  have z: "el ?R i j = Num 0"
    if "i < nrows (arr_y s)" "j < ncols (arr_y s)" "isnan (el ?P i j)" for i j
  proof -
    from that(3) have "el ?P i j = NaN" by (cases "el ?P i j") simp_all
    then show ?thesis using e [OF that(1,2)] by simp
  qed
  have y: "el ?R i j = (if isnan (el (arr_y s) i j) then Num 0
                           else fsub (el ?P i j) (el (arr_y s) i j))"
    if "i < nrows (arr_y s)" "j < ncols (arr_y s)" "\<not> isnan (el ?P i j)" for i j
  proof -
    have "\<not> is_inf (el (arr_y s) i j)"
      using assms that(1,2) by (intro rating_not_inf) (simp_all add: sh)
    then show ?thesis
      using e [OF that(1,2)] that(3) by (simp add: isnan_fsub)
  qed
  show ?thesis
    apply (rule exI [of _ ?P], rule exI [of _ ?R])
    apply (intro conjI)
            apply (rule P)
           apply (rule R)
          apply (simp add: sh)
         apply (simp add: sh)
        apply (rule c)
       apply (rule gd_step_ok [OF assms])
      apply (simp add: sh)
     apply (use e z in blast)
    apply (use y in blast)
    done
qed

theorem masking_by_nan_test_witness:
  "rect_env ex_env \<and> compatible ex_env \<and>
   matmul (arr_theta ex_env) (arr_T (arr_x ex_env)) = Inr (arr [[Num 1, Num 3], [Num 2, Num 6]]) \<and>
   residual ex_env = Inr (arr [[Num (-1), Num 0], [Num 1, Num 1]]) \<and>
   isnan (el (arr_y ex_env) 0 1) \<and>
   el (arr [[Num (-1), Num 0], [Num 1, Num 1]]) 0 1 = Num 0 \<and>
   \<not> isnan (el (arr_y ex_env) 1 1) \<and>
   el (arr [[Num (-1), Num 0], [Num 1, Num 1]]) 1 1 =
     fsub (el (arr [[Num 1, Num 3], [Num 2, Num 6]]) 1 1) (el (arr_y ex_env) 1 1) \<and>
   rect_env ex_nan_theta \<and> compatible ex_nan_theta \<and>
   matmul (arr_theta ex_nan_theta) (arr_T (arr_x ex_nan_theta)) = Inr (arr [[NaN]]) \<and>
   isnan (el (arr [[NaN]]) 0 0) \<and> \<not> isnan (el (arr_y ex_nan_theta) 0 0) \<and>
   (\<exists>R. residual ex_nan_theta = Inr R \<and> el R 0 0 = Num 0)"
proof -
  have P: "matmul (arr_theta ex_env) (arr_T (arr_x ex_env)) = Inr (arr [[Num 1, Num 3], [Num 2, Num 6]])"
    by (simp add: ex_env_def eval_defs)
  have R: "residual ex_env = Inr (arr [[Num (-1), Num 0], [Num 1, Num 1]])"
    by (simp add: ex_env_def eval_defs)
  have n: "\<forall>i<nrows (arr_y ex_env). \<forall>j<ncols (arr_y ex_env).
      \<not> isnan (el (arr [[Num 1, Num 3], [Num 2, Num 6]]) i j)"
    by (simp add: ex_env_def el_def nrows_def arr_def All_less_Suc)
  from masking_by_nan_test [of ex_env "Num 1" "Num 0"] ex_env_ok obtain P' R' where
    h: "matmul (arr_theta ex_env) (arr_T (arr_x ex_env)) = Inr P'" "residual ex_env = Inr R'" and
    imp: "(\<forall>i<nrows (arr_y ex_env). \<forall>j<ncols (arr_y ex_env). \<not> isnan (el P' i j)) \<longrightarrow>
            (\<forall>i<nrows (arr_y ex_env). \<forall>j<ncols (arr_y ex_env).
               el R' i j = (if isnan (el (arr_y ex_env) i j) then Num 0
                           else fsub (el P' i j) (el (arr_y ex_env) i j)))"
    by blast
  from h P R have "P' = arr [[Num 1, Num 3], [Num 2, Num 6]]"
    "R' = arr [[Num (-1), Num 0], [Num 1, Num 1]]"
    by simp_all
  with imp n have 1: "\<forall>i<nrows (arr_y ex_env). \<forall>j<ncols (arr_y ex_env).
      el (arr [[Num (-1), Num 0], [Num 1, Num 1]]) i j =
        (if isnan (el (arr_y ex_env) i j) then Num 0
         else fsub (el (arr [[Num 1, Num 3], [Num 2, Num 6]]) i j) (el (arr_y ex_env) i j))"
    by blast
  have ok: "rect_env ex_nan_theta" "compatible ex_nan_theta"
    by (simp_all add: ex_nan_theta_def rect_env_def compatible_def rect_def no_inf_def
        arr_def nrows_def)
  have Pn: "matmul (arr_theta ex_nan_theta) (arr_T (arr_x ex_nan_theta)) = Inr (arr [[NaN]])"
    by (simp add: ex_nan_theta_def eval_defs)
  have obs: "isnan (el (arr [[NaN]]) 0 0)" "\<not> isnan (el (arr_y ex_nan_theta) 0 0)"
    "0 < nrows (arr_y ex_nan_theta)" "0 < ncols (arr_y ex_nan_theta)"
    by (simp_all add: ex_nan_theta_def el_def arr_def nrows_def)
  from masking_by_nan_test [OF ok, of "Num 1" "Num 0"] obtain Q S where
    q: "matmul (arr_theta ex_nan_theta) (arr_T (arr_x ex_nan_theta)) = Inr Q"
      "residual ex_nan_theta = Inr S" and
    z: "\<forall>i<nrows (arr_y ex_nan_theta). \<forall>j<ncols (arr_y ex_nan_theta).
          isnan (el Q i j) \<and> \<not> isnan (el (arr_y ex_nan_theta) i j) \<longrightarrow> el S i j = Num 0"
    by blast
  from q(1) Pn have "Q = arr [[NaN]]" by simp
  with z obs have "el S 0 0 = Num 0" by blast
  with q(2) have 2: "\<exists>R. residual ex_nan_theta = Inr R \<and> el R 0 0 = Num 0" by blast
  have d: "0 < nrows (arr_y ex_env)" "1 < nrows (arr_y ex_env)" "1 < ncols (arr_y ex_env)"
    "isnan (el (arr_y ex_env) 0 1)" "\<not> isnan (el (arr_y ex_env) 1 1)"
    by (simp_all add: ex_env_def el_def arr_def nrows_def)
  from 1 d have 3: "el (arr [[Num (-1), Num 0], [Num 1, Num 1]]) 0 1 = Num 0"
    "el (arr [[Num (-1), Num 0], [Num 1, Num 1]]) 1 1 =
     fsub (el (arr [[Num 1, Num 3], [Num 2, Num 6]]) 1 1) (el (arr_y ex_env) 1 1)"
    by simp_all
  from ex_env_ok P R d(4,5) 3 ok Pn obs(1,2) 2 show ?thesis
    by blast
qed

end
